theory Spec2Isabelle
  imports Complex_Main
begin

section \<open>Dense tensors\<close>

text \<open>
  The program (\<^verbatim>\<open>src/csrc/permuto/src/permuto.cpp\<close>) builds its result from calls of
  the host tensor library. A tensor is modelled by its shape and its entries, read at a
  multi-index. Entries are real numbers: the model is the exact-arithmetic reading of the
  program, and the rounding that a floating-point \<^verbatim>\<open>dtype\<close> adds is not represented.
  Only the entries at in-range indices carry meaning.
\<close>

datatype torch_error = RuntimeError | IndexError

datatype device = CPU | CUDA nat

datatype dtype = Float16 | BFloat16 | Float32 | Float64 | Int32 | Int64

record tensor =
  shape :: "nat list"
  elem :: "nat list \<Rightarrow> real"

text \<open>Sequencing of calls that may throw: the first exception ends the computation.\<close>

definition and_then :: "'e + 'a \<Rightarrow> ('a \<Rightarrow> 'e + 'b) \<Rightarrow> 'e + 'b" where
  "and_then r f = (case r of Inl e \<Rightarrow> Inl e | Inr x \<Rightarrow> f x)"

text \<open>\<^verbatim>\<open>torch::eye(n)\<close>: the n x n identity; a negative n is refused.\<close>

definition eye :: "int \<Rightarrow> torch_error + tensor" where
  "eye n =
     (if n < 0 then Inl RuntimeError
      else Inr \<lparr>shape = [nat n, nat n],
                elem = (\<lambda>idx. if idx ! 0 = idx ! 1 then 1 else 0)\<rparr>)"

text \<open>\<^verbatim>\<open>torch::ones(sizes)\<close>: all entries 1; a negative size is refused.\<close>

definition ones :: "int list \<Rightarrow> torch_error + tensor" where
  "ones sizes =
     (if list_ex (\<lambda>s. s < 0) sizes then Inl RuntimeError
      else Inr \<lparr>shape = map nat sizes, elem = (\<lambda>idx. 1)\<rparr>)"

text \<open>\<^verbatim>\<open>t.transpose(d0, d1)\<close>: the two dimensions are exchanged.\<close>

definition swap_dims :: "nat \<Rightarrow> nat \<Rightarrow> 'a list \<Rightarrow> 'a list" where
  "swap_dims d0 d1 xs = xs[d0 := xs ! d1, d1 := xs ! d0]"

definition transpose_t :: "tensor \<Rightarrow> nat \<Rightarrow> nat \<Rightarrow> torch_error + tensor" where
  "transpose_t t d0 d1 =
     (if d0 < length (shape t) \<and> d1 < length (shape t)
      then Inr \<lparr>shape = swap_dims d0 d1 (shape t),
                elem = (\<lambda>idx. elem t (swap_dims d0 d1 idx))\<rparr>
      else Inl IndexError)"

text \<open>
  \<^verbatim>\<open>torch::matmul(a, b)\<close> for the two rank combinations the program uses: matrix times
  matrix, and batch of matrices times batch of matrices with equal batch size. The inner
  dimensions must agree. (Other rank combinations and batch broadcasting do not occur in
  the program; the model refuses them.)
\<close>

definition matmul :: "tensor \<Rightarrow> tensor \<Rightarrow> torch_error + tensor" where
  "matmul a b =
     (let sa = shape a; sb = shape b in
      if length sa = 2 \<and> length sb = 2 then
        (let m = sa ! 1 in
         if m = sb ! 0
         then Inr \<lparr>shape = [sa ! 0, sb ! 1],
                   elem = (\<lambda>idx. \<Sum>k<m. elem a [idx ! 0, k] * elem b [k, idx ! 1])\<rparr>
         else Inl RuntimeError)
      else if length sa = 3 \<and> length sb = 3 then
        (let m = sa ! 2 in
         if sa ! 0 = sb ! 0 \<and> m = sb ! 1
         then Inr \<lparr>shape = [sa ! 0, sa ! 1, sb ! 2],
                   elem = (\<lambda>idx. \<Sum>k<m.
                             elem a [idx ! 0, idx ! 1, k] * elem b [idx ! 0, k, idx ! 2])\<rparr>
         else Inl RuntimeError)
      else Inl RuntimeError)"

text \<open>
  \<^verbatim>\<open>t / c\<close> for a scalar c, and \<^verbatim>\<open>a - b\<close> for tensors of one shape (the program
  subtracts tensors of equal shape only; the model refuses the others).
\<close>

definition div_scalar :: "tensor \<Rightarrow> real \<Rightarrow> tensor" where
  "div_scalar t c = \<lparr>shape = shape t, elem = (\<lambda>idx. elem t idx / c)\<rparr>"

definition sub :: "tensor \<Rightarrow> tensor \<Rightarrow> torch_error + tensor" where
  "sub a b =
     (if shape a = shape b
      then Inr \<lparr>shape = shape a, elem = (\<lambda>idx. elem a idx - elem b idx)\<rparr>
      else Inl RuntimeError)"

text \<open>
  \<^verbatim>\<open>t.slice(d, start, stop)\<close> with step 1: a negative bound counts from the end, and
  both bounds are clamped to the size of the dimension.
\<close>

definition slice :: "tensor \<Rightarrow> nat \<Rightarrow> int \<Rightarrow> int \<Rightarrow> torch_error + tensor" where
  "slice t d start stop =
     (if d < length (shape t) then
        (let n = int (shape t ! d);
             s0 = (if start < 0 then start + n else start);
             e0 = (if stop < 0 then stop + n else stop);
             s = (if s0 < 0 then 0 else if s0 \<ge> n then n else s0);
             e = (if e0 < s then s else if e0 \<ge> n then n else e0)
         in Inr \<lparr>shape = (shape t)[d := nat (e - s)],
                  elem = (\<lambda>idx. elem t (idx[d := idx ! d + nat s]))\<rparr>)
      else Inl IndexError)"

text \<open>\<^verbatim>\<open>t.unsqueeze(d)\<close>: a dimension of size 1 is inserted at position d.\<close>

definition unsqueeze :: "tensor \<Rightarrow> nat \<Rightarrow> torch_error + tensor" where
  "unsqueeze t d =
     (if d \<le> length (shape t)
      then Inr \<lparr>shape = take d (shape t) @ [1] @ drop d (shape t),
                elem = (\<lambda>idx. elem t (take d idx @ drop (Suc d) idx))\<rparr>
      else Inl IndexError)"

text \<open>
  \<^verbatim>\<open>t.expand(sizes)\<close> with as many sizes as the tensor has dimensions: \<open>-1\<close> keeps a
  dimension, a dimension of size 1 is repeated to the requested size, and any other
  dimension must already have the requested size.
\<close>

definition expand :: "tensor \<Rightarrow> int list \<Rightarrow> torch_error + tensor" where
  "expand t sizes =
     (if list_all2 (\<lambda>s n. s = - 1 \<or> (n = 1 \<and> 0 \<le> s) \<or> s = int n) sizes (shape t)
      then Inr \<lparr>shape = map2 (\<lambda>s n. if s = - 1 then n else nat s) sizes (shape t),
                elem = (\<lambda>idx. elem t (map2 (\<lambda>i n. if n = 1 then 0 else i) idx (shape t)))\<rparr>
      else Inl RuntimeError)"

text \<open>
  \<^verbatim>\<open>t[i]\<close> reads the i-th slice along the first dimension (a negative i counts from
  the end). \<^verbatim>\<open>t[i] = r\<close> is an assignment to a temporary view of t, which copies r into
  that slice of t; r must have the shape of the slice.
\<close>

definition select :: "tensor \<Rightarrow> int \<Rightarrow> torch_error + tensor" where
  "select t i =
     (case shape t of
        [] \<Rightarrow> Inl IndexError
      | n # rest \<Rightarrow>
          if - int n \<le> i \<and> i < int n
          then (let j = nat (if i < 0 then i + int n else i)
                in Inr \<lparr>shape = rest, elem = (\<lambda>idx. elem t (j # idx))\<rparr>)
          else Inl IndexError)"

definition select_assign :: "tensor \<Rightarrow> int \<Rightarrow> tensor \<Rightarrow> torch_error + tensor" where
  "select_assign t i r =
     (case shape t of
        [] \<Rightarrow> Inl IndexError
      | n # rest \<Rightarrow>
          if - int n \<le> i \<and> i < int n then
            (if shape r = rest
             then (let j = nat (if i < 0 then i + int n else i)
                   in Inr \<lparr>shape = shape t,
                            elem = (\<lambda>idx. case idx of
                                      [] \<Rightarrow> elem t []
                                    | b # idx' \<Rightarrow> if b = j then elem r idx' else elem t idx)\<rparr>)
             else Inl RuntimeError)
          else Inl IndexError)"

section \<open>Random rotations in the zero-sum subspace\<close>

text \<open>
  The source passes \<^verbatim>\<open>device=device, dtype=dtype\<close> to \<^verbatim>\<open>eye\<close>, \<^verbatim>\<open>ones\<close> and
  \<^verbatim>\<open>randn\<close>; the model reads them as the options of the tensor that is created. Two
  calls of the program go to library routines whose results the source does not
  determine; they are parameters of the model:
  \<^item> \<open>qr\<close> stands for \<^verbatim>\<open>torch::linalg::qr\<close>: it returns the pair of factors (Q, R), or
    throws;
  \<^item> \<open>randn\<close> stands for \<^verbatim>\<open>torch::randn\<close>: it reads the state of the global random
    number generator and returns the samples together with the advanced state.
\<close>

type_synonym qr_routine = "tensor \<Rightarrow> torch_error + (tensor \<times> tensor)"

type_synonym 'g randn_routine =
  "int list \<Rightarrow> device \<Rightarrow> dtype \<Rightarrow> 'g \<Rightarrow> (torch_error + tensor) \<times> 'g"

text \<open>
  Lines 44 to 46: the matrix handed to the first QR decomposition,
  \<^verbatim>\<open>I - matmul(ones, ones.transpose(0, 1)) / (dim + 1)\<close>.
\<close>

definition zero_sum_projector :: "int \<Rightarrow> torch_error + tensor" where
  "zero_sum_projector d =
     and_then (eye (d + 1)) (\<lambda>I.
     and_then (ones [d + 1, 1]) (\<lambda>ones1.
     and_then (transpose_t ones1 0 1) (\<lambda>ones1_T.
     and_then (matmul ones1 ones1_T) (\<lambda>J.
       sub I (div_scalar J (of_int (d + 1)))))))"

text \<open>Lines 46 and 47: the Q factor of that matrix, without its last column.\<close>

definition zero_sum_basis :: "qr_routine \<Rightarrow> int \<Rightarrow> torch_error + tensor" where
  "zero_sum_basis qr d =
     and_then (zero_sum_projector d) (\<lambda>P.
     and_then (qr P) (\<lambda>QR.
       slice (fst QR) 1 0 (- 1)))"

text \<open>
  Lines 51 to 54: the loop \<^verbatim>\<open>for (int i = 0; i < num; ++i)\<close> replaces each sample
  matrix by the Q factor of its QR decomposition.
\<close>

function orthogonalize_from :: "qr_routine \<Rightarrow> int \<Rightarrow> int \<Rightarrow> tensor \<Rightarrow> torch_error + tensor" where
  "orthogonalize_from qr num i R_sub =
     (if i < num then
        (case select R_sub i of
           Inl e \<Rightarrow> Inl e
         | Inr A \<Rightarrow>
             (case qr A of
                Inl e \<Rightarrow> Inl e
              | Inr QR \<Rightarrow>
                  (case select_assign R_sub i (fst QR) of
                     Inl e \<Rightarrow> Inl e
                   | Inr R_sub' \<Rightarrow> orthogonalize_from qr num (i + 1) R_sub')))
      else Inr R_sub)"
  by pat_completeness auto
termination
  by (relation "measure (\<lambda>(qr, num, i, R_sub). nat (num - i))") auto

declare orthogonalize_from.simps [simp del]

text \<open>Lines 57 to 61: \<^verbatim>\<open>matmul(Q_exp, matmul(R_sub, Q_T))\<close>.\<close>

definition rotate_basis :: "tensor \<Rightarrow> tensor \<Rightarrow> int \<Rightarrow> torch_error + tensor" where
  "rotate_basis Q R_sub num =
     and_then (transpose_t Q 0 1) (\<lambda>Qt.
     and_then (unsqueeze Qt 0) (\<lambda>Qt1.
     and_then (expand Qt1 [num, - 1, - 1]) (\<lambda>Q_T.
     and_then (unsqueeze Q 0) (\<lambda>Q1.
     and_then (expand Q1 [num, - 1, - 1]) (\<lambda>Q_exp.
     and_then (matmul R_sub Q_T) (\<lambda>RQ.
       matmul Q_exp RQ))))))"

text \<open>
  The whole function; \<open>d\<close> is its argument \<^verbatim>\<open>dim\<close>. The state of the generator is
  threaded through the one call that uses it; an exception leaves the state as it was
  when it was thrown. The arguments \<^verbatim>\<open>device\<close> and \<^verbatim>\<open>dtype\<close> are handed on to
  \<^verbatim>\<open>randn\<close>; they select where and in which precision the library computes, which the
  model does not represent.
\<close>

definition random_rotation_in_zero_sum_subspace_cuda ::
  "qr_routine \<Rightarrow> 'g randn_routine \<Rightarrow> int \<Rightarrow> int \<Rightarrow> device \<Rightarrow> dtype \<Rightarrow> 'g
     \<Rightarrow> (torch_error + tensor) \<times> 'g" where
  "random_rotation_in_zero_sum_subspace_cuda qr randn d num dev dt g =
     (case zero_sum_basis qr d of
        Inl e \<Rightarrow> (Inl e, g)
      | Inr Q \<Rightarrow>
          (case randn [num, d, d] dev dt g of
             (Inl e, g') \<Rightarrow> (Inl e, g')
           | (Inr R_sub, g') \<Rightarrow>
               (and_then (orthogonalize_from qr num 0 R_sub) (\<lambda>R_all.
                  rotate_basis Q R_all num), g')))"

text \<open>
  The arguments \<^verbatim>\<open>dim\<close> and \<^verbatim>\<open>num\<close> are C++ \<^verbatim>\<open>int\<close>s; the model computes with
  integers. It agrees with the program where the sum \<^verbatim>\<open>dim + 1\<close> does not overflow.
  Negative arguments make the library throw; the claims are about the calls that
  return, which have both arguments non-negative.
\<close>

definition int_max :: int where
  "int_max = 2147483647"

definition arguments_in_range :: "int \<Rightarrow> int \<Rightarrow> bool" where
  "arguments_in_range d num \<longleftrightarrow> 0 \<le> d \<and> d < int_max \<and> 0 \<le> num \<and> num \<le> int_max"

subsection \<open>The contract of the QR decomposition\<close>

text \<open>
  What the library documents for \<^verbatim>\<open>torch.linalg.qr\<close> on a square matrix A: it returns
  Q and R of the same size with Q orthogonal (its columns are orthonormal, and so are its
  rows), R upper triangular and A = Q R. Nothing else is assumed about the routine; in
  particular the signs and, for a singular A, the choice among the possible factors are
  left open.
\<close>

definition orthonormal_columns :: "nat \<Rightarrow> nat \<Rightarrow> tensor \<Rightarrow> bool" where
  "orthonormal_columns m n Q \<longleftrightarrow>
     (\<forall>a<n. \<forall>b<n. (\<Sum>k<m. elem Q [k, a] * elem Q [k, b]) = (if a = b then 1 else 0))"

definition orthonormal_rows :: "nat \<Rightarrow> nat \<Rightarrow> tensor \<Rightarrow> bool" where
  "orthonormal_rows m n Q \<longleftrightarrow>
     (\<forall>i<m. \<forall>j<m. (\<Sum>k<n. elem Q [i, k] * elem Q [j, k]) = (if i = j then 1 else 0))"

definition upper_triangular :: "nat \<Rightarrow> tensor \<Rightarrow> bool" where
  "upper_triangular n R \<longleftrightarrow> (\<forall>i<n. \<forall>j<i. elem R [i, j] = 0)"

definition qr_decomposes :: "qr_routine \<Rightarrow> tensor \<Rightarrow> bool" where
  "qr_decomposes qr A \<longleftrightarrow>
     (case qr A of
        Inl e \<Rightarrow> False
      | Inr QR \<Rightarrow>
          (case shape A of
             [n, n'] \<Rightarrow>
               (let Q = fst QR; R = snd QR in
                n' = n \<and> shape Q = [n, n] \<and> shape R = [n, n] \<and>
                orthonormal_columns n n Q \<and> orthonormal_rows n n Q \<and>
                upper_triangular n R \<and>
                (\<forall>i<n. \<forall>j<n. elem A [i, j] = (\<Sum>k<n. elem Q [i, k] * elem R [k, j])))
           | _ \<Rightarrow> False))"

text \<open>The Q factor that the routine returns for A (A itself where the routine throws).\<close>

definition q_factor :: "qr_routine \<Rightarrow> tensor \<Rightarrow> tensor" where
  "q_factor qr A = (case qr A of Inl e \<Rightarrow> A | Inr QR \<Rightarrow> fst QR)"

text \<open>The contract holds for each of the first \<open>num\<close> matrices of a batch.\<close>

definition qr_decomposes_each :: "qr_routine \<Rightarrow> tensor \<Rightarrow> int \<Rightarrow> bool" where
  "qr_decomposes_each qr S num \<longleftrightarrow>
     (\<forall>b<nat num. case select S (int b) of Inl e \<Rightarrow> False | Inr A \<Rightarrow> qr_decomposes qr A)"

text \<open>The b-th matrix of a batch, as \<^verbatim>\<open>S[b]\<close> reads it.\<close>

definition batch_entry :: "tensor \<Rightarrow> nat \<Rightarrow> tensor" where
  "batch_entry T b = \<lparr>shape = tl (shape T), elem = (\<lambda>idx. elem T (b # idx))\<rparr>"

text \<open>
  The library meets its contracts on the inputs that one call of the program, started in
  generator state g, hands to it: the QR routine decomposes the matrix of lines 44 to 46,
  \<^verbatim>\<open>randn\<close> returns a tensor of the requested shape, and the QR routine decomposes each
  of its matrices.
\<close>

definition library_contract ::
  "qr_routine \<Rightarrow> 'g randn_routine \<Rightarrow> int \<Rightarrow> int \<Rightarrow> device \<Rightarrow> dtype \<Rightarrow> 'g \<Rightarrow> bool" where
  "library_contract qr randn d num dev dt g \<longleftrightarrow>
     (case zero_sum_projector d of Inl e \<Rightarrow> False | Inr P \<Rightarrow> qr_decomposes qr P) \<and>
     (case fst (randn [num, d, d] dev dt g) of
        Inl e \<Rightarrow> False
      | Inr S \<Rightarrow> shape S = [nat num, nat d, nat d] \<and> qr_decomposes_each qr S num)"

subsection \<open>Vectors and the zero-sum subspace\<close>

text \<open>
  A vector of length n is read through its first n components. \<open>apply_matrix n M b v\<close>
  is the product of the b-th matrix of the batch M with v.
\<close>

definition zero_sum :: "nat \<Rightarrow> (nat \<Rightarrow> real) \<Rightarrow> bool" where
  "zero_sum n v \<longleftrightarrow> (\<Sum>j<n. v j) = 0"

definition apply_matrix :: "nat \<Rightarrow> tensor \<Rightarrow> nat \<Rightarrow> (nat \<Rightarrow> real) \<Rightarrow> nat \<Rightarrow> real" where
  "apply_matrix n M b v = (\<lambda>i. \<Sum>j<n. elem M [b, i, j] * v j)"

definition euclidean_norm :: "nat \<Rightarrow> (nat \<Rightarrow> real) \<Rightarrow> real" where
  "euclidean_norm n v = sqrt (\<Sum>i<n. v i * v i)"

subsection \<open>A concrete library instance\<close>

text \<open>
  An instance of the two library routines for \<^verbatim>\<open>dim = 2\<close>, used to evaluate the
  program on concrete inputs. The generator state is a counter; the samples drawn in
  state g are 0/1 matrices: the identity where the batch index plus g is even, the
  exchange matrix where it is odd. The QR routine returns, for the 3 x 3 matrix of
  lines 44 to 46, the orthogonal factor with columns (2,-1,-1)/sqrt 6, (0,1,-1)/sqrt 2,
  (1,1,1)/sqrt 3, and for a 2 x 2 matrix either the identity or the exchange matrix as
  Q, according to whether the top left entry is zero.
\<close>

definition matrix_of_rows :: "real list list \<Rightarrow> tensor" where
  "matrix_of_rows rows =
     \<lparr>shape = [length rows, (case rows of [] \<Rightarrow> 0 | r # rs \<Rightarrow> length r)],
      elem = (\<lambda>idx. rows ! (idx ! 0) ! (idx ! 1))\<rparr>"

definition demo_Q :: tensor where
  "demo_Q = matrix_of_rows
     [[2 / sqrt 6, 0, 1 / sqrt 3],
      [- 1 / sqrt 6, 1 / sqrt 2, 1 / sqrt 3],
      [- 1 / sqrt 6, - 1 / sqrt 2, 1 / sqrt 3]]"

definition demo_R :: tensor where
  "demo_R = matrix_of_rows
     [[2 / sqrt 6, - 1 / sqrt 6, - 1 / sqrt 6],
      [0, 1 / sqrt 2, - 1 / sqrt 2],
      [0, 0, 0]]"

definition demo_qr :: qr_routine where
  "demo_qr A =
     (if shape A = [3, 3] then Inr (demo_Q, demo_R)
      else if shape A = [2, 2] then
        (if elem A [0, 0] = 0
         then Inr (matrix_of_rows [[0, 1], [1, 0]],
                   \<lparr>shape = [2, 2], elem = (\<lambda>idx. elem A [1 - idx ! 0, idx ! 1])\<rparr>)
         else Inr (matrix_of_rows [[1, 0], [0, 1]], A))
      else Inl RuntimeError)"

definition demo_randn :: "nat randn_routine" where
  "demo_randn sizes dev dt g =
     (if list_ex (\<lambda>s. s < 0) sizes then (Inl RuntimeError, g)
      else (Inr \<lparr>shape = map nat sizes,
                 elem = (\<lambda>idx. if even (idx ! 0 + idx ! 1 + idx ! 2 + g) then 1 else 0)\<rparr>,
            Suc g))"

text \<open>The tensor a call returned (the empty tensor where it threw).\<close>

definition returned_tensor :: "(torch_error + tensor) \<times> 'g \<Rightarrow> tensor" where
  "returned_tensor r = (case fst r of Inl e \<Rightarrow> \<lparr>shape = [], elem = (\<lambda>idx. 0)\<rparr> | Inr M \<Rightarrow> M)"

text \<open>The zero-sum vector (1, -1, 0, 0, ...).\<close>

definition demo_vector :: "nat \<Rightarrow> real" where
  "demo_vector j = (if j = 0 then 1 else if j = 1 then - 1 else 0)"

section \<open>The Python module\<close>

text \<open>
  Lines 66 to 108 register three functions, one class and the rotation utility with the
  Python interpreter. The functions and the class are declared in
  \<^verbatim>\<open>permuto/permuto.h\<close>, which is not part of the sources; what the registration
  itself fixes is the calling convention of each function (names, order and defaults of
  its arguments) and the access that Python has to each field of the class.
\<close>

datatype py_error = TypeError | AttributeError

datatype py_value =
    PyNone
  | PyBool bool
  | PyInt int
  | PyFloat real
  | PyList "py_value list"
  | PyTensor tensor
  | PyObject string

subsection \<open>Argument binding\<close>

text \<open>
  \<^verbatim>\<open>py::arg("name")\<close> declares an argument without a default, and
  \<^verbatim>\<open>py::arg("name") = value\<close> one with a default; \<^verbatim>\<open>nullptr\<close> becomes Python's
  \<^verbatim>\<open>None\<close>.
\<close>

datatype py_arg = Required string | Optional string py_value

fun arg_name :: "py_arg \<Rightarrow> string" where
  "arg_name (Required name) = name"
| "arg_name (Optional name dflt) = name"

text \<open>
  The dispatcher fills the declared arguments from left to right: first from the
  positional arguments, then by keyword, then from the default. A call is refused with a
  \<^verbatim>\<open>TypeError\<close> when it has more positional arguments than the function declares, when
  an argument is given both by position and by keyword, when an argument without a
  default is not given, or when a keyword names no declared argument. (The conversion of
  each value to the C++ parameter type follows; the parameter types are declared in the
  header and are not modelled.)
\<close>

fun bind_from :: "py_arg list \<Rightarrow> py_value list \<Rightarrow> (string \<rightharpoonup> py_value) \<Rightarrow> py_error + py_value list" where
  "bind_from [] [] kw = Inr []"
| "bind_from [] (v # vs) kw = Inl TypeError"
| "bind_from (a # as) (v # vs) kw =
     (case kw (arg_name a) of
        Some w \<Rightarrow> Inl TypeError
      | None \<Rightarrow> (case bind_from as vs kw of Inl e \<Rightarrow> Inl e | Inr bound \<Rightarrow> Inr (v # bound)))"
| "bind_from (a # as) [] kw =
     (case kw (arg_name a) of
        Some w \<Rightarrow> (case bind_from as [] kw of Inl e \<Rightarrow> Inl e | Inr bound \<Rightarrow> Inr (w # bound))
      | None \<Rightarrow>
          (case a of
             Required name \<Rightarrow> Inl TypeError
           | Optional name dflt \<Rightarrow>
               (case bind_from as [] kw of Inl e \<Rightarrow> Inl e | Inr bound \<Rightarrow> Inr (dflt # bound))))"

definition bind_arguments ::
  "py_arg list \<Rightarrow> py_value list \<Rightarrow> (string \<times> py_value) list \<Rightarrow> py_error + py_value list" where
  "bind_arguments args positional keywords =
     (if list_all (\<lambda>kv. fst kv \<in> set (map arg_name args)) keywords
      then bind_from args positional (map_of keywords)
      else Inl TypeError)"

text \<open>Lines 67 to 72, the macro \<^verbatim>\<open>OPTIONAL_ARGS\<close>.\<close>

definition OPTIONAL_ARGS :: "py_arg list" where
  "OPTIONAL_ARGS =
     [Optional ''level_random_shifts'' PyNone,
      Optional ''batch_inds'' PyNone,
      Optional ''batch_offsets'' PyNone,
      Optional ''batch_data_size'' PyNone,
      Optional ''max_level'' PyNone]"

text \<open>Lines 74 to 76, the arguments of the three registered functions.\<close>

definition permuto_enc_fwd_args :: "py_arg list" where
  "permuto_enc_fwd_args =
     [Required ''meta'', Required ''positions'', Required ''lattice_values''] @ OPTIONAL_ARGS"

definition permuto_enc_bwd_args :: "py_arg list" where
  "permuto_enc_bwd_args =
     [Required ''meta'', Required ''dL_dy'', Required ''positions'', Required ''lattice_values'']
     @ OPTIONAL_ARGS
     @ [Required ''max_pos_dims'',
        Optional ''need_input_grad'' PyNone,
        Optional ''need_param_grad'' PyNone]"

definition permuto_enc_bwd_bwd_input_args :: "py_arg list" where
  "permuto_enc_bwd_bwd_input_args =
     [Required ''meta'', Required ''dL_ddLdx'', Required ''dL_dy'', Required ''positions'',
      Required ''lattice_values'']
     @ OPTIONAL_ARGS
     @ [Optional ''need_dL_ddLdy'' PyNone,
        Optional ''need_dL_dparams'' PyNone]"

text \<open>
  A call of a registered function: the arguments are bound, and the C++ function (a
  parameter of the model: a function of the bound argument values) computes the result.
\<close>

definition call_bound ::
  "py_arg list \<Rightarrow> (py_value list \<Rightarrow> 'r) \<Rightarrow> py_value list \<Rightarrow> (string \<times> py_value) list
     \<Rightarrow> py_error + 'r" where
  "call_bound args impl positional keywords =
     (case bind_arguments args positional keywords of
        Inl e \<Rightarrow> Inl e
      | Inr bound \<Rightarrow> Inr (impl bound))"

subsection \<open>The class PermutoEncMeta\<close>

text \<open>
  Lines 81 to 103. Every field is registered with \<^verbatim>\<open>def_readonly\<close>: Python gets a
  property with a getter and no setter. The class is registered without
  \<^verbatim>\<open>py::dynamic_attr()\<close>, so an instance takes no attribute beyond the registered ones.
\<close>

datatype access = ReadOnly | ReadWrite

definition PermutoEncMeta_fields :: "(string \<times> access) list" where
  "PermutoEncMeta_fields =
     [(''level_scales_multidim'', ReadOnly),
      (''level_scales0'', ReadOnly),
      (''level_n_feats'', ReadOnly),
      (''level_n_params'', ReadOnly),
      (''level_offsets'', ReadOnly),
      (''level_sizes'', ReadOnly),
      (''map_levels'', ReadOnly),
      (''map_cnt'', ReadOnly),
      (''n_levels'', ReadOnly),
      (''n_pseudo_levels'', ReadOnly),
      (''n_feat_per_pseudo_lvl'', ReadOnly),
      (''n_dims_to_encode'', ReadOnly),
      (''n_encoded_dims'', ReadOnly),
      (''n_params'', ReadOnly)]"

text \<open>
  An instance holds one value for each field. The C++ types of the fields are declared
  in the header; the model takes them to be numbers and containers of numbers, as the
  arguments of the constructor are (line 83), which the binding converts to fresh Python
  objects: reading a field hands Python a copy of the value. Assigning to or deleting an
  attribute goes through the property.
\<close>

type_synonym py_instance = "string \<rightharpoonup> py_value"

definition getattr :: "(string \<times> access) list \<Rightarrow> py_instance \<Rightarrow> string \<Rightarrow> py_error + py_value" where
  "getattr cls obj name =
     (case map_of cls name of
        None \<Rightarrow> Inl AttributeError
      | Some a \<Rightarrow> (case obj name of None \<Rightarrow> Inl AttributeError | Some v \<Rightarrow> Inr v))"

definition setattr ::
  "(string \<times> access) list \<Rightarrow> py_instance \<Rightarrow> string \<Rightarrow> py_value \<Rightarrow> py_error + py_instance" where
  "setattr cls obj name v =
     (case map_of cls name of
        None \<Rightarrow> Inl AttributeError
      | Some ReadOnly \<Rightarrow> Inl AttributeError
      | Some ReadWrite \<Rightarrow> Inr (obj(name \<mapsto> v)))"

definition delattr :: "(string \<times> access) list \<Rightarrow> py_instance \<Rightarrow> string \<Rightarrow> py_error + py_instance" where
  "delattr cls obj name = Inl AttributeError"

text \<open>
  The operations that Python code can perform on a constructed meta object: the three
  attribute accesses, and a call of one of the three registered functions with the object
  as its \<^verbatim>\<open>meta\<close> argument (the handle \<open>PyObject ''meta''\<close> among the argument
  values). The C++ functions behind the calls are parameters of the model: functions
  from the meta and the bound argument values to the result. Their declarations, in
  \<^verbatim>\<open>permuto/permuto.h\<close>, are not part of the sources; that they read the meta and
  do not write it is taken from the spec (sections 2 and 4.4: the layout planner is
  read-only to all other components, and a call has no side effect beyond writing its
  output).
\<close>

datatype meta_op =
    GetAttr string
  | SetAttr string py_value
  | DelAttr string
  | Call_permuto_enc_fwd "py_value list" "(string \<times> py_value) list"
  | Call_permuto_enc_bwd "py_value list" "(string \<times> py_value) list"
  | Call_permuto_enc_bwd_bwd_input "py_value list" "(string \<times> py_value) list"

record kernels =
  enc_fwd :: "py_instance \<Rightarrow> py_value list \<Rightarrow> py_value"
  enc_bwd :: "py_instance \<Rightarrow> py_value list \<Rightarrow> py_value"
  enc_bwd_bwd_input :: "py_instance \<Rightarrow> py_value list \<Rightarrow> py_value"

fun meta_step :: "kernels \<Rightarrow> meta_op \<Rightarrow> py_instance \<Rightarrow> (py_error + py_value) \<times> py_instance" where
  "meta_step K (GetAttr name) obj = (getattr PermutoEncMeta_fields obj name, obj)"
| "meta_step K (SetAttr name v) obj =
     (case setattr PermutoEncMeta_fields obj name v of
        Inl e \<Rightarrow> (Inl e, obj)
      | Inr obj' \<Rightarrow> (Inr PyNone, obj'))"
| "meta_step K (DelAttr name) obj =
     (case delattr PermutoEncMeta_fields obj name of
        Inl e \<Rightarrow> (Inl e, obj)
      | Inr obj' \<Rightarrow> (Inr PyNone, obj'))"
| "meta_step K (Call_permuto_enc_fwd positional keywords) obj =
     (call_bound permuto_enc_fwd_args (enc_fwd K obj) positional keywords, obj)"
| "meta_step K (Call_permuto_enc_bwd positional keywords) obj =
     (call_bound permuto_enc_bwd_args (enc_bwd K obj) positional keywords, obj)"
| "meta_step K (Call_permuto_enc_bwd_bwd_input positional keywords) obj =
     (call_bound permuto_enc_bwd_bwd_input_args (enc_bwd_bwd_input K obj)
        positional keywords, obj)"

fun meta_run :: "kernels \<Rightarrow> meta_op list \<Rightarrow> py_instance \<Rightarrow> py_instance" where
  "meta_run K [] obj = obj"
| "meta_run K (oper # ops) obj = meta_run K ops (snd (meta_step K oper obj))"

section \<open>The encoder operations that the module exposes\<close>

text \<open>
  The bodies of the constructor and of the three functions are in
  \<^verbatim>\<open>permuto/permuto.h\<close> and the kernels behind it, which are not part of the sources.
  The definitions of this section follow the spec where a claim is about them.
\<close>

datatype config_error = ConfigurationError

text \<open>The fields of the class, by the names of lines 87 to 101.\<close>

record PermutoEncMeta =
  level_scales_multidim :: "real list list"
  level_scales0 :: "real list"
  level_n_feats :: "int list"
  level_n_params :: "int list"
  level_offsets :: "int list"
  level_sizes :: "int list"
  map_levels :: "int list"
  map_cnt :: "int list"
  n_levels :: int
  n_pseudo_levels :: int
  n_feat_per_pseudo_lvl :: int
  n_dims_to_encode :: int
  n_encoded_dims :: int
  n_params :: int

text \<open>
  Modelled from the spec: the constructor of \<^verbatim>\<open>PermutoEncMeta\<close>, of which the sources
  hold the registration only (lines 82 to 86: four arguments \<^verbatim>\<open>n_input_dim\<close>,
  \<^verbatim>\<open>hashmap_size\<close>, \<^verbatim>\<open>res_list\<close>, \<^verbatim>\<open>n_feats_list\<close>). Section 4.1: it produces
  the meta, or fails with a configuration error if the number of levels is outside
  [2, 20], any feature width is below 2, or the two lists differ in length. Section 3:
  the number of levels, the widths and the input dimension are those given, and the total
  output width is the sum of the widths. The spec gives no formulas for the scales,
  sizes, offsets and pseudo-levels; \<open>layout\<close> stands for their computation.
\<close>

definition build_meta ::
  "(int \<Rightarrow> int \<Rightarrow> real list \<Rightarrow> int list \<Rightarrow> PermutoEncMeta)
     \<Rightarrow> int \<Rightarrow> int \<Rightarrow> real list \<Rightarrow> int list \<Rightarrow> config_error + PermutoEncMeta" where
  "build_meta layout n_input_dim hashmap_size res_list n_feats_list =
     (if length res_list < 2 \<or> 20 < length res_list then Inl ConfigurationError
      else if list_ex (\<lambda>f. f < 2) n_feats_list then Inl ConfigurationError
      else if length n_feats_list \<noteq> length res_list then Inl ConfigurationError
      else Inr ((layout n_input_dim hashmap_size res_list n_feats_list)
                  \<lparr>level_n_feats := n_feats_list,
                   n_levels := int (length res_list),
                   n_dims_to_encode := n_input_dim,
                   n_encoded_dims := sum_list n_feats_list\<rparr>))"

text \<open>
  Modelled from the spec: the level cutoff of the forward pass
  (\<^verbatim>\<open>permuto::permuto_enc_fwd\<close> is not part of the sources). Sections 3 and 4.4: with a
  \<^verbatim>\<open>max_level\<close>, only the first \<^verbatim>\<open>max_level\<close> levels contribute and the rest of the
  output is zero; the output is the concatenation of the slices of the levels.
  \<open>level_features l x\<close> stands for the interpolated features of query x at level l.
\<close>

definition level_active :: "nat option \<Rightarrow> nat \<Rightarrow> bool" where
  "level_active max_level l = (case max_level of None \<Rightarrow> True | Some k \<Rightarrow> l < k)"

definition encode_forward ::
  "(nat \<Rightarrow> 'x \<Rightarrow> real list) \<Rightarrow> nat list \<Rightarrow> nat option \<Rightarrow> 'x \<Rightarrow> real list" where
  "encode_forward level_features widths max_level x =
     concat (map (\<lambda>l. if level_active max_level l then level_features l x
                       else replicate (widths ! l) 0)
               [0..<length widths])"

text \<open>How the bound value of \<^verbatim>\<open>max_level\<close> is read: \<^verbatim>\<open>None\<close> is no cutoff.\<close>

definition optional_level :: "py_value \<Rightarrow> nat option" where
  "optional_level v = (case v of PyInt k \<Rightarrow> Some (nat k) | _ \<Rightarrow> None)"

text \<open>
  Modelled from the spec: the two masks of the backward pass
  (\<^verbatim>\<open>permuto::permuto_enc_bwd\<close> is not part of the sources). Section 4.5: the flags let
  the caller skip computing either output entirely, with no semantic change. The spec
  does not say how an omitted flag is read; \<open>omitted\<close> stands for that reading.
  \<open>input_grad\<close> and \<open>param_grad\<close> stand for the two gradient computations.
\<close>

definition flag_set :: "bool \<Rightarrow> py_value \<Rightarrow> bool" where
  "flag_set omitted v = (case v of PyBool b \<Rightarrow> b | _ \<Rightarrow> omitted)"

definition encode_backward ::
  "bool \<Rightarrow> ('a \<Rightarrow> 'dx) \<Rightarrow> ('a \<Rightarrow> 'dp) \<Rightarrow> 'a \<Rightarrow> py_value \<Rightarrow> py_value \<Rightarrow> 'dx option \<times> 'dp option" where
  "encode_backward omitted input_grad param_grad inputs need_input_grad need_param_grad =
     (if flag_set omitted need_input_grad then Some (input_grad inputs) else None,
      if flag_set omitted need_param_grad then Some (param_grad inputs) else None)"

subsection \<open>Concrete inputs for the module\<close>

text \<open>
  A layout that leaves every field it computes empty, kernels that return
  \<^verbatim>\<open>None\<close>, and a meta object with the level count of the scenario of section 8 of the
  spec.
\<close>

definition demo_layout :: "int \<Rightarrow> int \<Rightarrow> real list \<Rightarrow> int list \<Rightarrow> PermutoEncMeta" where
  "demo_layout n_input_dim hashmap_size res_list n_feats_list =
     \<lparr>level_scales_multidim = [], level_scales0 = [], level_n_feats = [],
      level_n_params = [], level_offsets = [], level_sizes = [], map_levels = [],
      map_cnt = [], n_levels = 0, n_pseudo_levels = 0, n_feat_per_pseudo_lvl = 0,
      n_dims_to_encode = 0, n_encoded_dims = 0, n_params = 0\<rparr>"

definition demo_kernels :: kernels where
  "demo_kernels =
     \<lparr>enc_fwd = (\<lambda>obj bound. PyNone),
      enc_bwd = (\<lambda>obj bound. PyNone),
      enc_bwd_bwd_input = (\<lambda>obj bound. PyNone)\<rparr>"

definition demo_meta :: py_instance where
  "demo_meta = [''n_levels'' \<mapsto> PyInt 4, ''n_encoded_dims'' \<mapsto> PyInt 8]"

section \<open>Properties of the random rotations\<close>

subsection \<open>What each stage of the program computes\<close>

lemma and_then_Inr [simp]: "and_then (Inr x) f = f x"
  by (simp add: and_then_def)

lemma and_then_Inl [simp]: "and_then (Inl e) f = Inl e"
  by (simp add: and_then_def)

lemma zero_sum_projector_eq:
  assumes "0 \<le> d"
  shows "\<exists>P. zero_sum_projector d = Inr P \<and> shape P = [nat d + 1, nat d + 1]
          \<and> (\<forall>i j. elem P [i, j] = (if i = j then 1 else 0) - 1 / real (nat d + 1))"
  using assms
  by (simp add: zero_sum_projector_def eye_def ones_def transpose_t_def swap_dims_def
      matmul_def sub_def div_scalar_def Let_def nat_add_distrib add.commute)

lemma qr_decomposesD:
  assumes "qr_decomposes qr A" and "shape A = [n, n]"
  shows "\<exists>R. qr A = Inr (q_factor qr A, R) \<and> shape (q_factor qr A) = [n, n]
     \<and> orthonormal_columns n n (q_factor qr A) \<and> orthonormal_rows n n (q_factor qr A)
     \<and> upper_triangular n R
     \<and> (\<forall>i<n. \<forall>j<n. elem A [i, j] = (\<Sum>k<n. elem (q_factor qr A) [i, k] * elem R [k, j]))"
  using assms
  by (cases "qr A") (auto simp: qr_decomposes_def q_factor_def Let_def)

lemma zero_sum_basis_eq:
  assumes d: "0 \<le> d" and P: "zero_sum_projector d = Inr P" and qr: "qr_decomposes qr P"
  shows "\<exists>Q. zero_sum_basis qr d = Inr Q \<and> shape Q = [nat d + 1, nat d]
          \<and> (\<forall>i k. elem Q [i, k] = elem (q_factor qr P) [i, k])"
proof -
  from zero_sum_projector_eq[OF d] P have sh: "shape P = [nat d + 1, nat d + 1]" by auto
  from qr_decomposesD[OF qr sh] obtain R where
    R: "qr P = Inr (q_factor qr P, R)" and shq: "shape (q_factor qr P) = [nat d + 1, nat d + 1]"
    by blast
  show ?thesis
    by (simp add: zero_sum_basis_def P R slice_def shq Let_def)
qed

lemma select_eq:
  assumes "shape T = N # rest" "b < N"
  shows "select T (int b) = Inr (batch_entry T b)"
  using assms by (simp add: select_def batch_entry_def)

lemma orthogonalize_from_eq:
  assumes "shape T = [N, m, m]" "num = int N" "0 \<le> i" "i \<le> num"
    and "\<forall>b. nat i \<le> b \<and> b < N \<longrightarrow> qr_decomposes qr (batch_entry T b)"
  shows "\<exists>T'. orthogonalize_from qr num i T = Inr T' \<and> shape T' = [N, m, m] \<and>
    (\<forall>b idx. b < nat i \<longrightarrow> elem T' (b # idx) = elem T (b # idx)) \<and>
    (\<forall>b idx. nat i \<le> b \<and> b < N \<longrightarrow>
        elem T' (b # idx) = elem (q_factor qr (batch_entry T b)) idx)"
  using assms
proof (induction "nat (num - i)" arbitrary: i T)
  case 0
  then have "\<not> i < num" by simp
  moreover have "\<not> (nat i \<le> b \<and> b < N)" for b
    using 0 by auto
  ultimately show ?case
    using "0.prems"(1) by (subst orthogonalize_from.simps) auto
next
  case (Suc k)
  let ?j = "nat i"
  have lt: "i < num" and jN: "?j < N" using Suc.hyps(2) Suc.prems by auto
  let ?A = "batch_entry T ?j"
  have shA: "shape ?A = [m, m]" by (simp add: batch_entry_def Suc.prems(1))
  have sel: "select T i = Inr ?A"
    using select_eq[of T N "[m, m]" ?j] Suc.prems jN by simp
  have "qr_decomposes qr ?A" using Suc.prems(5) jN by simp
  from qr_decomposesD[OF this shA] obtain R where
    R: "qr ?A = Inr (q_factor qr ?A, R)" and shq: "shape (q_factor qr ?A) = [m, m]"
    by blast
  define T1 where "T1 = \<lparr>shape = shape T,
       elem = (\<lambda>idx. case idx of [] \<Rightarrow> elem T []
          | b # idx' \<Rightarrow> if b = ?j then elem (q_factor qr ?A) idx' else elem T idx)\<rparr>"
  have asg: "select_assign T i (q_factor qr ?A) = Inr T1"
    using Suc.prems lt by (simp add: select_assign_def shq T1_def)
  have same: "batch_entry T1 b = batch_entry T b" if "b \<noteq> ?j" for b
    using that by (simp add: batch_entry_def T1_def)
  have step: "orthogonalize_from qr num i T = orthogonalize_from qr num (i + 1) T1"
    using lt by (subst orthogonalize_from.simps) (simp add: sel R asg)
  have nat1: "nat (i + 1) = Suc ?j" using Suc.prems(3) by simp
  have "\<exists>T'. orthogonalize_from qr num (i + 1) T1 = Inr T' \<and> shape T' = [N, m, m] \<and>
    (\<forall>b idx. b < nat (i + 1) \<longrightarrow> elem T' (b # idx) = elem T1 (b # idx)) \<and>
    (\<forall>b idx. nat (i + 1) \<le> b \<and> b < N \<longrightarrow>
        elem T' (b # idx) = elem (q_factor qr (batch_entry T1 b)) idx)"
  proof (rule Suc.hyps(1))
    show "k = nat (num - (i + 1))" using Suc.hyps(2) by simp
    show "shape T1 = [N, m, m]" by (simp add: T1_def Suc.prems(1))
    show "num = int N" by fact
    show "0 \<le> i + 1" using Suc.prems(3) by simp
    show "i + 1 \<le> num" using lt by simp
    show "\<forall>b. nat (i + 1) \<le> b \<and> b < N \<longrightarrow> qr_decomposes qr (batch_entry T1 b)"
      using Suc.prems(5) same nat1 by auto
  qed
  then obtain T' where T': "orthogonalize_from qr num (i + 1) T1 = Inr T'"
    "shape T' = [N, m, m]"
    "\<forall>b idx. b < Suc ?j \<longrightarrow> elem T' (b # idx) = elem T1 (b # idx)"
    "\<forall>b idx. Suc ?j \<le> b \<and> b < N \<longrightarrow>
        elem T' (b # idx) = elem (q_factor qr (batch_entry T1 b)) idx"
    unfolding nat1 by blast
  have "elem T' (b # idx) = elem T (b # idx)" if "b < ?j" for b idx
    using T'(3) that by (simp add: T1_def)
  moreover have "elem T' (b # idx) = elem (q_factor qr (batch_entry T b)) idx"
    if "?j \<le> b \<and> b < N" for b idx
  proof (cases "b = ?j")
    case True
    then show ?thesis using T'(3) by (simp add: T1_def)
  next
    case False
    then show ?thesis using T'(4) that same by auto
  qed
  ultimately show ?case
    using step T'(1,2) by auto
qed

lemma rotate_basis_eq:
  assumes Q: "shape Q = [n, m]" and R: "shape R = [N, m, m]" and num: "num = int N"
  shows "\<exists>M. rotate_basis Q R num = Inr M \<and> shape M = [N, n, n] \<and>
     (\<forall>b<N. \<forall>i<n. \<forall>j<n. elem M [b, i, j] =
        (\<Sum>k<m. elem Q [i, k] * (\<Sum>l<m. elem R [b, k, l] * elem Q [j, l])))"
proof -
  have fix_idx: "(if m = Suc 0 then 0 else k) = k" if "k < m" for k
    using that by auto
  have inner: "(\<Sum>l<m. elem R [b, k, l] * elem Q [j, if m = Suc 0 then 0 else l])
      = (\<Sum>l<m. elem R [b, k, l] * elem Q [j, l])" for b k j
    by (intro sum.cong refl) (simp add: fix_idx)
  have outer: "(\<Sum>k<m. elem Q [i, if m = Suc 0 then 0 else k] * g k)
      = (\<Sum>k<m. elem Q [i, k] * g k)" for i and g :: "nat \<Rightarrow> real"
    by (intro sum.cong refl) (simp add: fix_idx)
  show ?thesis
    using assms
    by (auto simp add: rotate_basis_def transpose_t_def swap_dims_def unsqueeze_def expand_def
        matmul_def Let_def inner outer)
qed

subsection \<open>Finite sums: products of matrices with orthonormal columns\<close>

lemma gram:
  fixes F G :: "nat \<Rightarrow> nat \<Rightarrow> real"
  assumes "\<forall>a<d. \<forall>b<d. (\<Sum>k<n. F k a * F k b) = (if a = b then 1 else 0)"
  shows "(\<Sum>k<n. (\<Sum>a<d. F k a * G a i) * (\<Sum>b<d. F k b * G b j)) = (\<Sum>a<d. G a i * G a j)"
proof -
  have pt: "(G a i * G b j) * (\<Sum>k<n. F k a * F k b) = (if b = a then G a i * G b j else 0)"
    if "a < d" "b < d" for a b
    using assms that by auto
  have "(\<Sum>k<n. (\<Sum>a<d. F k a * G a i) * (\<Sum>b<d. F k b * G b j))
      = (\<Sum>k<n. \<Sum>a<d. \<Sum>b<d. (G a i * G b j) * (F k a * F k b))"
    by (simp add: sum_product mult_ac)
  also have "\<dots> = (\<Sum>a<d. \<Sum>k<n. \<Sum>b<d. (G a i * G b j) * (F k a * F k b))"
    by (rule sum.swap)
  also have "\<dots> = (\<Sum>a<d. \<Sum>b<d. \<Sum>k<n. (G a i * G b j) * (F k a * F k b))"
    by (rule sum.cong[OF refl], rule sum.swap)
  also have "\<dots> = (\<Sum>a<d. \<Sum>b<d. (G a i * G b j) * (\<Sum>k<n. F k a * F k b))"
    by (simp add: sum_distrib_left)
  also have "\<dots> = (\<Sum>a<d. \<Sum>b<d. (if b = a then G a i * G b j else 0))"
    by (intro sum.cong refl) (simp add: pt)
  also have "\<dots> = (\<Sum>a<d. G a i * G a j)"
    by (intro sum.cong refl) (simp add: sum.delta)
  finally show ?thesis .
qed

text \<open>Row and column sums of Q R Q^T vanish when the columns of Q sum to zero.\<close>

lemma sandwich_row_sum:
  fixes f r :: "nat \<Rightarrow> nat \<Rightarrow> real"
  assumes "\<forall>l<d. (\<Sum>j<n. f j l) = 0"
  shows "(\<Sum>j<n. \<Sum>k<d. f i k * (\<Sum>l<d. r k l * f j l)) = 0"
proof -
  have "(\<Sum>j<n. \<Sum>k<d. f i k * (\<Sum>l<d. r k l * f j l))
      = (\<Sum>k<d. \<Sum>j<n. f i k * (\<Sum>l<d. r k l * f j l))"
    by (rule sum.swap)
  also have "\<dots> = (\<Sum>k<d. f i k * (\<Sum>j<n. \<Sum>l<d. r k l * f j l))"
    by (simp add: sum_distrib_left)
  also have "\<dots> = (\<Sum>k<d. f i k * (\<Sum>l<d. \<Sum>j<n. r k l * f j l))"
    by (simp only: sum.swap[of _ "{..<d}" "{..<n}"])
  also have "\<dots> = (\<Sum>k<d. f i k * (\<Sum>l<d. r k l * (\<Sum>j<n. f j l)))"
    by (simp add: sum_distrib_left)
  also have "\<dots> = 0"
    using assms by simp
  finally show ?thesis .
qed

lemma sandwich_col_sum:
  fixes f r :: "nat \<Rightarrow> nat \<Rightarrow> real"
  assumes "\<forall>k<d. (\<Sum>i<n. f i k) = 0"
  shows "(\<Sum>i<n. \<Sum>k<d. f i k * (\<Sum>l<d. r k l * f j l)) = 0"
proof -
  have "(\<Sum>i<n. \<Sum>k<d. f i k * (\<Sum>l<d. r k l * f j l))
      = (\<Sum>k<d. \<Sum>i<n. f i k * (\<Sum>l<d. r k l * f j l))"
    by (rule sum.swap)
  also have "\<dots> = (\<Sum>k<d. (\<Sum>i<n. f i k) * (\<Sum>l<d. r k l * f j l))"
    by (simp add: sum_distrib_right)
  also have "\<dots> = 0"
    using assms by simp
  finally show ?thesis .
qed

text \<open>The Gram matrix of Q R Q^T.\<close>

lemma sandwich_gram:
  fixes f r :: "nat \<Rightarrow> nat \<Rightarrow> real"
  assumes f: "\<forall>a<d. \<forall>b<d. (\<Sum>k<n. f k a * f k b) = (if a = b then 1 else 0)"
    and r: "\<forall>a<d. \<forall>b<d. (\<Sum>k<d. r k a * r k b) = (if a = b then 1 else 0)"
  shows "(\<Sum>k<n. (\<Sum>a<d. f k a * (\<Sum>l<d. r a l * f i l)) * (\<Sum>b<d. f k b * (\<Sum>l<d. r b l * f j l)))
       = (\<Sum>l<d. f i l * f j l)"
proof -
  have "(\<Sum>k<n. (\<Sum>a<d. f k a * (\<Sum>l<d. r a l * f i l)) * (\<Sum>b<d. f k b * (\<Sum>l<d. r b l * f j l)))
      = (\<Sum>a<d. (\<Sum>l<d. r a l * f i l) * (\<Sum>l<d. r a l * f j l))"
    by (rule gram[OF f, where G="\<lambda>a i. \<Sum>l<d. r a l * f i l"])
  also have "\<dots> = (\<Sum>l<d. f i l * f j l)"
    by (rule gram[OF r, where G="\<lambda>l i. f i l"])
  finally show ?thesis .
qed

text \<open>Q^T (Q R Q^T) Q = R: the rotation is recovered from the result.\<close>

lemma sandwich_recover:
  fixes f r :: "nat \<Rightarrow> nat \<Rightarrow> real"
  assumes f: "\<forall>a<d. \<forall>b<d. (\<Sum>k<n. f k a * f k b) = (if a = b then 1 else 0)"
    and a: "a < d" and c: "c < d"
  shows "(\<Sum>i<n. \<Sum>j<n. f i a * (\<Sum>k<d. f i k * (\<Sum>l<d. r k l * f j l)) * f j c) = r a c"
proof -
  have inner: "(\<Sum>j<n. (\<Sum>l<d. r k l * f j l) * f j c) = r k c" if "k < d" for k
  proof -
    have "(\<Sum>j<n. (\<Sum>l<d. r k l * f j l) * f j c) = (\<Sum>j<n. \<Sum>l<d. r k l * (f j l * f j c))"
      by (simp add: sum_distrib_right mult.assoc)
    also have "\<dots> = (\<Sum>l<d. \<Sum>j<n. r k l * (f j l * f j c))"
      by (rule sum.swap)
    also have "\<dots> = (\<Sum>l<d. r k l * (\<Sum>j<n. f j l * f j c))"
      by (simp add: sum_distrib_left)
    also have "\<dots> = (\<Sum>l<d. if l = c then r k l else 0)"
      using f c by (intro sum.cong refl) auto
    also have "\<dots> = r k c"
      using c by (simp add: sum.delta)
    finally show ?thesis .
  qed
  have dist: "x * (\<Sum>k<d. h k * G k) * y = (\<Sum>k<d. (x * h k) * (G k * y))"
    for x y :: real and h G :: "nat \<Rightarrow> real"
    by (simp add: sum_distrib_left sum_distrib_right mult_ac)
  have "(\<Sum>i<n. \<Sum>j<n. f i a * (\<Sum>k<d. f i k * (\<Sum>l<d. r k l * f j l)) * f j c)
      = (\<Sum>i<n. \<Sum>j<n. \<Sum>k<d. (f i a * f i k) * ((\<Sum>l<d. r k l * f j l) * f j c))"
    by (intro sum.cong refl) (rule dist)
  also have "\<dots> = (\<Sum>i<n. \<Sum>k<d. \<Sum>j<n. (f i a * f i k) * ((\<Sum>l<d. r k l * f j l) * f j c))"
    by (rule sum.cong[OF refl]) (rule sum.swap)
  also have "\<dots> = (\<Sum>i<n. \<Sum>k<d. (f i a * f i k) * (\<Sum>j<n. (\<Sum>l<d. r k l * f j l) * f j c))"
    by (simp add: sum_distrib_left)
  also have "\<dots> = (\<Sum>i<n. \<Sum>k<d. (f i a * f i k) * r k c)"
    by (intro sum.cong refl) (simp add: inner)
  also have "\<dots> = (\<Sum>k<d. \<Sum>i<n. (f i a * f i k) * r k c)"
    by (rule sum.swap)
  also have "\<dots> = (\<Sum>k<d. (\<Sum>i<n. f i a * f i k) * r k c)"
    by (simp add: sum_distrib_right)
  also have "\<dots> = (\<Sum>k<d. if k = a then r k c else 0)"
    using f a by (intro sum.cong refl) auto
  also have "\<dots> = r a c"
    using a by (simp add: sum.delta)
  finally show ?thesis .
qed

text \<open>
  If Q is orthogonal, U upper triangular and Q U the projector I - J/n, then the last
  column of Q is constant, with n m m = 1 for its entry m.
\<close>

lemma last_column:
  fixes f u :: "nat \<Rightarrow> nat \<Rightarrow> real"
  assumes n: "n = Suc d"
    and cols: "\<forall>a<n. \<forall>b<n. (\<Sum>k<n. f k a * f k b) = (if a = b then 1 else 0)"
    and tri: "\<forall>i<n. \<forall>j<i. u i j = 0"
    and fac: "\<forall>i<n. \<forall>j<n.
        (if i = j then 1 else 0) - 1 / real n = (\<Sum>k<n. f i k * u k j)"
  shows "\<exists>m. (\<forall>i<n. f i d = m) \<and> real n * (m * m) = 1"
proof -
  define s where "s = (\<Sum>i<n. f i d)"
  define m where "m = s / real n"
  have dn: "d < n" using n by simp
  have low: "f j d = m" if "j < d" for j
  proof -
    have jn: "j < n" using that n by simp
    have "(\<Sum>i<n. f i d * ((if i = j then 1 else 0) - 1 / real n))
        = (\<Sum>i<n. f i d * (\<Sum>k<n. f i k * u k j))"
      using fac jn by (intro sum.cong refl) simp
    also have "\<dots> = (\<Sum>i<n. \<Sum>k<n. u k j * (f i d * f i k))"
      by (simp add: sum_distrib_left mult_ac)
    also have "\<dots> = (\<Sum>k<n. \<Sum>i<n. u k j * (f i d * f i k))"
      by (rule sum.swap)
    also have "\<dots> = (\<Sum>k<n. u k j * (\<Sum>i<n. f i d * f i k))"
      by (simp add: sum_distrib_left)
    also have "\<dots> = (\<Sum>k<n. (if k = d then u k j else 0))"
      using cols dn by (intro sum.cong refl) auto
    also have "\<dots> = u d j"
      using dn by (simp add: sum.delta)
    also have "\<dots> = 0"
      using tri that dn by simp
    finally have z: "(\<Sum>i<n. f i d * ((if i = j then 1 else 0) - 1 / real n)) = 0" .
    have "(\<Sum>i<n. f i d * ((if i = j then 1 else 0) - 1 / real n))
        = (\<Sum>i<n. (if i = j then f i d else 0) - f i d / real n)"
      by (intro sum.cong refl) (simp add: algebra_simps)
    also have "\<dots> = (\<Sum>i<n. (if i = j then f i d else 0)) - (\<Sum>i<n. f i d / real n)"
      by (rule sum_subtractf)
    also have "\<dots> = f j d - s / real n"
      using jn by (simp add: sum.delta s_def sum_divide_distrib)
    finally show ?thesis using z by (simp add: m_def)
  qed
  have "s = (\<Sum>i<d. f i d) + f d d"
    by (simp add: s_def n)
  also have "(\<Sum>i<d. f i d) = (\<Sum>i<d. m)"
    by (intro sum.cong refl) (simp add: low)
  finally have "s = real d * m + f d d"
    by simp
  moreover have "s = (real d + 1) * m"
    by (simp add: m_def n add.commute)
  ultimately have top: "f d d = m"
    by (simp add: algebra_simps)
  have all: "f i d = m" if "i < n" for i
    using that low top n by (cases "i = d") auto
  have "(\<Sum>k<n. f k d * f k d) = 1"
    using cols dn by auto
  moreover have "(\<Sum>k<n. f k d * f k d) = (\<Sum>k<n. m * m)"
    by (intro sum.cong refl) (simp add: all)
  ultimately have "real n * (m * m) = 1"
    by simp
  with all show ?thesis by blast
qed

text \<open>The quadratic form of a Gram matrix, and of the projector I - J/n.\<close>

lemma quadratic_form:
  fixes A :: "nat \<Rightarrow> nat \<Rightarrow> real" and v :: "nat \<Rightarrow> real"
  shows "(\<Sum>i<n. (\<Sum>j<m. A i j * v j) * (\<Sum>j<m. A i j * v j))
       = (\<Sum>j<m. \<Sum>j'<m. (v j * v j') * (\<Sum>i<n. A i j * A i j'))"
proof -
  have "(\<Sum>i<n. (\<Sum>j<m. A i j * v j) * (\<Sum>j<m. A i j * v j))
      = (\<Sum>i<n. \<Sum>j<m. \<Sum>j'<m. (v j * v j') * (A i j * A i j'))"
    by (simp add: sum_product mult_ac)
  also have "\<dots> = (\<Sum>j<m. \<Sum>i<n. \<Sum>j'<m. (v j * v j') * (A i j * A i j'))"
    by (rule sum.swap)
  also have "\<dots> = (\<Sum>j<m. \<Sum>j'<m. \<Sum>i<n. (v j * v j') * (A i j * A i j'))"
    by (rule sum.cong[OF refl]) (rule sum.swap)
  also have "\<dots> = (\<Sum>j<m. \<Sum>j'<m. (v j * v j') * (\<Sum>i<n. A i j * A i j'))"
    by (simp add: sum_distrib_left)
  finally show ?thesis .
qed

lemma projector_quadratic_form:
  fixes v :: "nat \<Rightarrow> real"
  assumes "(\<Sum>j<n. v j) = 0"
  shows "(\<Sum>j<n. \<Sum>j'<n. (v j * v j') * ((if j = j' then 1 else 0) - c)) = (\<Sum>j<n. v j * v j)"
proof -
  have "(\<Sum>j<n. \<Sum>j'<n. (v j * v j') * ((if j = j' then 1 else 0) - c))
      = (\<Sum>j<n. \<Sum>j'<n. ((if j' = j then v j * v j' else 0) - c * (v j * v j')))"
    by (intro sum.cong refl) (simp add: algebra_simps)
  also have "\<dots> = (\<Sum>j<n. (\<Sum>j'<n. (if j' = j then v j * v j' else 0)) - c * (v j * (\<Sum>j'<n. v j')))"
    by (simp add: sum_subtractf sum_distrib_left)
  also have "\<dots> = (\<Sum>j<n. v j * v j)"
    using assms by (intro sum.cong refl) (simp add: sum.delta)
  finally show ?thesis .
qed

subsection \<open>The result of the function\<close>

text \<open>Facts about the basis Q that follow from the contract at the projector.\<close>

lemma basis_facts:
  assumes d: "0 \<le> d" and P: "zero_sum_projector d = Inr P" and qr: "qr_decomposes qr P"
  defines "Q \<equiv> q_factor qr P" and "n \<equiv> nat d + 1"
  shows "\<forall>a<nat d. (\<Sum>k<n. elem Q [k, a]) = 0"
    and "\<forall>a<nat d. \<forall>b<nat d. (\<Sum>k<n. elem Q [k, a] * elem Q [k, b]) = (if a = b then 1 else 0)"
    and "\<forall>i<n. \<forall>j<n. (\<Sum>k<nat d. elem Q [i, k] * elem Q [j, k]) = elem P [i, j]"
proof -
  from zero_sum_projector_eq[OF d] P have sh: "shape P = [n, n]"
    and ent: "\<And>i j. elem P [i, j] = (if i = j then 1 else 0) - 1 / real n"
    by (auto simp: n_def)
  from qr_decomposesD[OF qr sh] obtain R where
    cols: "orthonormal_columns n n Q" and rows: "orthonormal_rows n n Q"
    and tri: "upper_triangular n R"
    and fac: "\<forall>i<n. \<forall>j<n. elem P [i, j] = (\<Sum>k<n. elem Q [i, k] * elem R [k, j])"
    unfolding Q_def by blast
  have n: "n = Suc (nat d)" by (simp add: n_def)
  have "\<exists>m. (\<forall>i<n. elem Q [i, nat d] = m) \<and> real n * (m * m) = 1"
  proof (rule last_column[OF n, where u="\<lambda>i j. elem R [i, j]"])
    show "\<forall>a<n. \<forall>b<n. (\<Sum>k<n. elem Q [k, a] * elem Q [k, b]) = (if a = b then 1 else 0)"
      using cols by (simp add: orthonormal_columns_def)
    show "\<forall>i<n. \<forall>j<i. elem R [i, j] = 0"
      using tri by (simp add: upper_triangular_def)
    show "\<forall>i<n. \<forall>j<n. (if i = j then 1 else 0) - 1 / real n
            = (\<Sum>k<n. elem Q [i, k] * elem R [k, j])"
      using fac ent by simp
  qed
  then obtain m where m: "\<And>i. i < n \<Longrightarrow> elem Q [i, nat d] = m" and mm: "real n * (m * m) = 1"
    by blast
  have m0: "m \<noteq> 0" using mm by auto
  have col: "(\<Sum>k<n. elem Q [k, a] * elem Q [k, b]) = (if a = b then 1 else 0)"
    if "a < n" "b < n" for a b
    using cols that by (simp add: orthonormal_columns_def)
  show "\<forall>a<nat d. (\<Sum>k<n. elem Q [k, a]) = 0"
  proof (intro allI impI)
    fix a assume a: "a < nat d"
    have "(\<Sum>k<n. elem Q [k, a] * elem Q [k, nat d]) = 0"
      using col[of a "nat d"] a n by simp
    moreover have "(\<Sum>k<n. elem Q [k, a] * elem Q [k, nat d]) = (\<Sum>k<n. elem Q [k, a] * m)"
      by (intro sum.cong refl) (simp add: m)
    ultimately have "(\<Sum>k<n. elem Q [k, a]) * m = 0"
      by (simp add: sum_distrib_right)
    with m0 show "(\<Sum>k<n. elem Q [k, a]) = 0" by simp
  qed
  show "\<forall>a<nat d. \<forall>b<nat d. (\<Sum>k<n. elem Q [k, a] * elem Q [k, b]) = (if a = b then 1 else 0)"
    using col n by simp
  show "\<forall>i<n. \<forall>j<n. (\<Sum>k<nat d. elem Q [i, k] * elem Q [j, k]) = elem P [i, j]"
  proof (intro allI impI)
    fix i j assume i: "i < n" and j: "j < n"
    have "(\<Sum>k<n. elem Q [i, k] * elem Q [j, k]) = (if i = j then 1 else 0)"
      using rows i j by (simp add: orthonormal_rows_def)
    moreover have "(\<Sum>k<n. elem Q [i, k] * elem Q [j, k])
        = (\<Sum>k<nat d. elem Q [i, k] * elem Q [j, k]) + m * m"
      using m[OF i] m[OF j] by (simp add: n)
    moreover have "m * m = 1 / real n"
    proof -
      have "real n \<noteq> 0" by (simp add: n)
      then show ?thesis using mm by (simp add: nonzero_eq_divide_eq mult.commute)
    qed
    ultimately show "(\<Sum>k<nat d. elem Q [i, k] * elem Q [j, k]) = elem P [i, j]"
      by (simp add: ent)
  qed
qed

text \<open>The result of the whole function, entry by entry.\<close>

lemma random_rotation_eq:
  assumes d: "0 \<le> d" and num: "0 \<le> num"
    and lib: "library_contract qr randn d num dev dt g"
  shows "\<exists>P S M. zero_sum_projector d = Inr P \<and> qr_decomposes qr P \<and>
      fst (randn [num, d, d] dev dt g) = Inr S \<and> shape S = [nat num, nat d, nat d] \<and>
      (\<forall>b<nat num. qr_decomposes qr (batch_entry S b)) \<and>
      random_rotation_in_zero_sum_subspace_cuda qr randn d num dev dt g
        = (Inr M, snd (randn [num, d, d] dev dt g)) \<and>
      shape M = [nat num, nat d + 1, nat d + 1] \<and>
      (\<forall>b<nat num. \<forall>i<nat d + 1. \<forall>j<nat d + 1. elem M [b, i, j] =
         (\<Sum>k<nat d. elem (q_factor qr P) [i, k] *
            (\<Sum>l<nat d. elem (q_factor qr (batch_entry S b)) [k, l] * elem (q_factor qr P) [j, l])))"
proof -
  from lib obtain P where P: "zero_sum_projector d = Inr P" and qrP: "qr_decomposes qr P"
    by (auto simp: library_contract_def split: sum.splits)
  from lib obtain S where S: "fst (randn [num, d, d] dev dt g) = Inr S"
    and shS: "shape S = [nat num, nat d, nat d]" and each: "qr_decomposes_each qr S num"
    by (auto simp: library_contract_def split: sum.splits)
  have sel: "select S (int b) = Inr (batch_entry S b)" if "b < nat num" for b
    using select_eq[OF shS that] .
  have each': "\<forall>b<nat num. qr_decomposes qr (batch_entry S b)"
    using each sel by (auto simp: qr_decomposes_each_def)
  from zero_sum_basis_eq[OF d P qrP] obtain Q where Q: "zero_sum_basis qr d = Inr Q"
    and shQ: "shape Q = [nat d + 1, nat d]"
    and entQ: "\<And>i k. elem Q [i, k] = elem (q_factor qr P) [i, k]"
    by blast
  have "\<exists>T'. orthogonalize_from qr num 0 S = Inr T' \<and> shape T' = [nat num, nat d, nat d] \<and>
    (\<forall>b idx. b < nat 0 \<longrightarrow> elem T' (b # idx) = elem S (b # idx)) \<and>
    (\<forall>b idx. nat 0 \<le> b \<and> b < nat num \<longrightarrow>
        elem T' (b # idx) = elem (q_factor qr (batch_entry S b)) idx)"
    using shS num each' by (intro orthogonalize_from_eq) auto
  then obtain T where T: "orthogonalize_from qr num 0 S = Inr T"
    and shT: "shape T = [nat num, nat d, nat d]"
    and entT: "\<And>b idx. b < nat num \<Longrightarrow> elem T (b # idx) = elem (q_factor qr (batch_entry S b)) idx"
    by auto
  have "num = int (nat num)" using num by simp
  from rotate_basis_eq[OF shQ shT this] obtain M where M: "rotate_basis Q T num = Inr M"
    and shM: "shape M = [nat num, nat d + 1, nat d + 1]"
    and entM: "\<forall>b<nat num. \<forall>i<nat d + 1. \<forall>j<nat d + 1. elem M [b, i, j] =
        (\<Sum>k<nat d. elem Q [i, k] * (\<Sum>l<nat d. elem T [b, k, l] * elem Q [j, l]))"
    by blast
  have run: "random_rotation_in_zero_sum_subspace_cuda qr randn d num dev dt g
      = (Inr M, snd (randn [num, d, d] dev dt g))"
    using S by (cases "randn [num, d, d] dev dt g")
      (simp add: random_rotation_in_zero_sum_subspace_cuda_def Q T M)
  have "\<forall>b<nat num. \<forall>i<nat d + 1. \<forall>j<nat d + 1. elem M [b, i, j] =
         (\<Sum>k<nat d. elem (q_factor qr P) [i, k] *
            (\<Sum>l<nat d. elem (q_factor qr (batch_entry S b)) [k, l] * elem (q_factor qr P) [j, l]))"
    using entM by (simp add: entQ entT)
  with P qrP S shS each' run shM show ?thesis by blast
qed

subsection \<open>The concrete library instance meets the contract\<close>

lemma all_less_two: "(\<forall>i<2::nat. P i) \<longleftrightarrow> P 0 \<and> P 1"
  by (auto simp: less_2_cases_iff)

lemma all_less_three: "(\<forall>i<3::nat. P i) \<longleftrightarrow> P 0 \<and> P 1 \<and> P 2"
proof -
  have "i < 3 \<longleftrightarrow> i = 0 \<or> i = 1 \<or> i = 2" for i :: nat
    by auto
  then show ?thesis by auto
qed

lemma sum_less_two: "(\<Sum>k<2. f k) = f 0 + f (1::nat)"
  by (simp add: numeral_2_eq_2)

lemma sum_less_three: "(\<Sum>k<3. f k) = f 0 + f 1 + f (2::nat)"
  by (simp add: numeral_3_eq_3 numeral_2_eq_2)

lemma demo_qr_projector:
  assumes "zero_sum_projector 2 = Inr P"
  shows "qr_decomposes demo_qr P"
proof -
  from zero_sum_projector_eq[of 2] assms have sh: "shape P = [3, 3]"
    and ent: "\<And>i j. elem P [i, j] = (if i = j then 1 else 0) - 1 / 3"
    by auto
  have "orthonormal_columns 3 3 demo_Q"
    by (simp add: orthonormal_columns_def demo_Q_def matrix_of_rows_def all_less_three sum_less_three)
  moreover have "orthonormal_rows 3 3 demo_Q"
    by (simp add: orthonormal_rows_def demo_Q_def matrix_of_rows_def all_less_three sum_less_three)
  moreover have "upper_triangular 3 demo_R"
    by (simp add: upper_triangular_def demo_R_def matrix_of_rows_def all_less_three all_less_two)
  moreover have "\<forall>i<3. \<forall>j<3. elem P [i, j] = (\<Sum>k<3. elem demo_Q [i, k] * elem demo_R [k, j])"
    by (simp add: ent demo_Q_def demo_R_def matrix_of_rows_def all_less_three sum_less_three)
  ultimately show ?thesis
    by (simp add: qr_decomposes_def demo_qr_def sh demo_Q_def demo_R_def matrix_of_rows_def)
qed

lemma demo_qr_samples:
  assumes "fst (demo_randn [2, 2, 2] dev dt g) = Inr S" and "g < 2"
  shows "shape S = [2, 2, 2] \<and> qr_decomposes_each demo_qr S 2"
proof -
  from assms(2) have "g = 0 \<or> g = 1" by auto
  then show ?thesis
  proof
    assume g: "g = 0"
    from assms(1) show ?thesis
      unfolding g
      by (auto simp add: demo_randn_def qr_decomposes_each_def select_def qr_decomposes_def
        demo_qr_def matrix_of_rows_def orthonormal_columns_def orthonormal_rows_def
        upper_triangular_def all_less_two sum_less_two Let_def)
  next
    assume g: "g = 1"
    from assms(1) show ?thesis
      unfolding g
      by (auto simp add: demo_randn_def qr_decomposes_each_def select_def qr_decomposes_def
        demo_qr_def matrix_of_rows_def orthonormal_columns_def orthonormal_rows_def
        upper_triangular_def all_less_two sum_less_two Let_def)
  qed
qed

lemma demo_library_contract:
  assumes "g < 2"
  shows "library_contract demo_qr demo_randn 2 2 dev dt g"
proof -
  obtain P where P: "zero_sum_projector 2 = Inr P"
    using zero_sum_projector_eq[of 2] by auto
  obtain S where S: "fst (demo_randn [2, 2, 2] dev dt g) = Inr S"
    by (simp add: demo_randn_def)
  show ?thesis
    using demo_qr_projector[OF P] demo_qr_samples[OF S assms]
    by (simp add: library_contract_def P S)
qed

section \<open>The claims about the random rotations\<close>

text \<open>
  Claim C1, as amended. The spec gives the result the shape [count, dim, dim]. The
  program builds the (dim+1) x dim basis Q of the zero-sum subspace of dimension dim
  (line 47) and returns the products Q R Q^T (line 61), which are matrices with dim + 1
  rows and columns: for every dim >= 1 and count >= 1, and a library that meets its
  contracts on this call, the function returns a tensor of shape
  [count, dim + 1, dim + 1].
\<close>

theorem rotation_shape:
  assumes "1 \<le> d" and "1 \<le> num" and "arguments_in_range d num"
    and "library_contract qr randn d num dev dt g"
  shows "map_sum id shape (fst (random_rotation_in_zero_sum_subspace_cuda qr randn d num dev dt g))
     = Inr [nat num, nat d + 1, nat d + 1]"
proof -
  from assms have "0 \<le> d" "0 \<le> num" by simp_all
  from random_rotation_eq[OF this assms(4)] show ?thesis by auto
qed

theorem rotation_shape_witness:
  "(1::int) \<le> 2 \<and> arguments_in_range 2 2 \<and>
   library_contract demo_qr demo_randn 2 2 CPU Float32 0 \<and>
   map_sum id shape (fst (random_rotation_in_zero_sum_subspace_cuda demo_qr demo_randn 2 2 CPU Float32 0))
     = Inr [2, 3, 3]"
proof -
  have c: "library_contract demo_qr demo_randn 2 2 CPU Float32 0"
    by (rule demo_library_contract) simp
  show ?thesis
    using rotation_shape[of 2 2 demo_qr demo_randn CPU Float32 0, OF _ _ _ c] c
    by (simp add: arguments_in_range_def int_max_def)
qed

text \<open>
  The claim as the spec states it fails: for dim = 2 and count = 2 the returned tensor
  does not have the shape [2, 2, 2].
\<close>

theorem rotation_shape_counterexample:
  "library_contract demo_qr demo_randn 2 2 CPU Float32 0 \<and>
   map_sum id shape (fst (random_rotation_in_zero_sum_subspace_cuda demo_qr demo_randn 2 2 CPU Float32 0))
     \<noteq> Inr [2, 2, 2]"
proof -
  have c: "library_contract demo_qr demo_randn 2 2 CPU Float32 0"
    by (rule demo_library_contract) simp
  from random_rotation_eq[OF _ _ c] show ?thesis
    using c by auto
qed

text \<open>
  Claim C2. Every matrix M that the function returns acts within the zero-sum subspace:
  M maps the all-ones vector to 0, the all-ones vector is orthogonal to every column of
  M (each column sums to 0), and M maps every zero-sum vector to a zero-sum vector. This
  holds in exact arithmetic for every library that meets its contracts on the call.
\<close>

theorem rotation_acts_in_zero_sum_subspace:
  assumes rng: "arguments_in_range d num" and lib: "library_contract qr randn d num dev dt g"
  shows "\<exists>M. fst (random_rotation_in_zero_sum_subspace_cuda qr randn d num dev dt g) = Inr M \<and>
     (\<forall>b<nat num.
        (\<forall>i<nat d + 1. apply_matrix (nat d + 1) M b (\<lambda>j. 1) i = 0) \<and>
        (\<forall>j<nat d + 1. (\<Sum>i<nat d + 1. elem M [b, i, j]) = 0) \<and>
        (\<forall>v. zero_sum (nat d + 1) v \<longrightarrow> zero_sum (nat d + 1) (apply_matrix (nat d + 1) M b v)))"
proof -
  define n where "n = nat d + 1"
  from rng have d: "0 \<le> d" and num: "0 \<le> num"
    by (simp_all add: arguments_in_range_def)
  from random_rotation_eq[OF d num lib, folded n_def] obtain P S M where
    P: "zero_sum_projector d = Inr P" and qrP: "qr_decomposes qr P"
    and run: "random_rotation_in_zero_sum_subspace_cuda qr randn d num dev dt g
        = (Inr M, snd (randn [num, d, d] dev dt g))"
    and ent: "\<forall>b<nat num. \<forall>i<n. \<forall>j<n. elem M [b, i, j] =
         (\<Sum>k<nat d. elem (q_factor qr P) [i, k] *
            (\<Sum>l<nat d. elem (q_factor qr (batch_entry S b)) [k, l] * elem (q_factor qr P) [j, l]))"
    by blast
  note colsum = basis_facts(1)[OF d P qrP, folded n_def]
  have "(\<forall>i<n. apply_matrix n M b (\<lambda>j. 1) i = 0) \<and>
        (\<forall>j<n. (\<Sum>i<n. elem M [b, i, j]) = 0) \<and>
        (\<forall>v. zero_sum n v \<longrightarrow> zero_sum n (apply_matrix n M b v))" if b: "b < nat num" for b
  proof -
    let ?f = "\<lambda>i k. elem (q_factor qr P) [i, k]"
    let ?r = "\<lambda>k l. elem (q_factor qr (batch_entry S b)) [k, l]"
    have entb: "elem M [b, i, j] = (\<Sum>k<nat d. ?f i k * (\<Sum>l<nat d. ?r k l * ?f j l))"
      if "i < n" "j < n" for i j
      using ent b that by simp
    have rows: "(\<Sum>j<n. elem M [b, i, j]) = 0" if i: "i < n" for i
    proof -
      have "(\<Sum>j<n. elem M [b, i, j]) = (\<Sum>j<n. \<Sum>k<nat d. ?f i k * (\<Sum>l<nat d. ?r k l * ?f j l))"
        by (intro sum.cong refl) (simp add: entb i)
      also have "\<dots> = 0"
        by (rule sandwich_row_sum) (use colsum in simp)
      finally show ?thesis .
    qed
    have cols: "(\<Sum>i<n. elem M [b, i, j]) = 0" if j: "j < n" for j
    proof -
      have "(\<Sum>i<n. elem M [b, i, j]) = (\<Sum>i<n. \<Sum>k<nat d. ?f i k * (\<Sum>l<nat d. ?r k l * ?f j l))"
        by (intro sum.cong refl) (simp add: entb j)
      also have "\<dots> = 0"
        by (rule sandwich_col_sum) (use colsum in simp)
      finally show ?thesis .
    qed
    have maps: "zero_sum n (apply_matrix n M b v)" for v
    proof -
      have "(\<Sum>i<n. \<Sum>j<n. elem M [b, i, j] * v j) = (\<Sum>j<n. \<Sum>i<n. elem M [b, i, j] * v j)"
        by (rule sum.swap)
      also have "\<dots> = (\<Sum>j<n. (\<Sum>i<n. elem M [b, i, j]) * v j)"
        by (simp add: sum_distrib_right)
      also have "\<dots> = 0"
        by (rule sum.neutral) (simp add: cols)
      finally show ?thesis by (simp add: zero_sum_def apply_matrix_def)
    qed
    show ?thesis
      using rows cols maps by (simp add: apply_matrix_def)
  qed
  with run show ?thesis unfolding n_def by simp
qed

theorem rotation_acts_in_zero_sum_subspace_witness:
  "arguments_in_range 2 2 \<and> library_contract demo_qr demo_randn 2 2 CPU Float32 0 \<and>
   apply_matrix 3
     (returned_tensor (random_rotation_in_zero_sum_subspace_cuda demo_qr demo_randn 2 2 CPU Float32 0))
     1 (\<lambda>j. 1) 2 = 0 \<and>
   (\<Sum>i<3. elem
     (returned_tensor (random_rotation_in_zero_sum_subspace_cuda demo_qr demo_randn 2 2 CPU Float32 0))
     [1, i, 2]) = 0 \<and>
   zero_sum 3 demo_vector \<and>
   zero_sum 3 (apply_matrix 3
     (returned_tensor (random_rotation_in_zero_sum_subspace_cuda demo_qr demo_randn 2 2 CPU Float32 0))
     1 demo_vector)"
proof -
  have c: "library_contract demo_qr demo_randn 2 2 CPU Float32 0"
    by (rule demo_library_contract) simp
  have v: "zero_sum 3 demo_vector"
    by (simp add: zero_sum_def demo_vector_def sum_less_three)
  have a: "arguments_in_range 2 2"
    by (simp add: arguments_in_range_def int_max_def)
  from rotation_acts_in_zero_sum_subspace[of 2 2 demo_qr demo_randn CPU Float32 0, OF a c]
  obtain M where M: "fst (random_rotation_in_zero_sum_subspace_cuda demo_qr demo_randn 2 2 CPU Float32 0) = Inr M"
    and props: "\<forall>b<2. (\<forall>i<3. apply_matrix 3 M b (\<lambda>j. 1) i = 0) \<and>
        (\<forall>j<3. (\<Sum>i<3. elem M [b, i, j]) = 0) \<and>
        (\<forall>v. zero_sum 3 v \<longrightarrow> zero_sum 3 (apply_matrix 3 M b v))"
    by auto
  have r: "returned_tensor (random_rotation_in_zero_sum_subspace_cuda demo_qr demo_randn 2 2 CPU Float32 0) = M"
    by (simp add: returned_tensor_def M)
  show ?thesis
    unfolding r using a c v props by (simp add: all_less_two all_less_three)
qed

text \<open>
  Claim C3. Every matrix M that the function returns is orthogonal as a transform of the
  zero-sum subspace: M^T M has the entries of the orthogonal projector I - J/n onto that
  subspace (n = dim + 1, J the all-ones matrix), and M preserves the Euclidean norm of
  every zero-sum vector. This holds in exact arithmetic for every library that meets
  its contracts on the call.
\<close>

theorem rotation_is_orthogonal_on_zero_sum_subspace:
  assumes rng: "arguments_in_range d num" and lib: "library_contract qr randn d num dev dt g"
  shows "\<exists>M. fst (random_rotation_in_zero_sum_subspace_cuda qr randn d num dev dt g) = Inr M \<and>
     (\<forall>b<nat num.
        (\<forall>i<nat d + 1. \<forall>j<nat d + 1.
           (\<Sum>k<nat d + 1. elem M [b, k, i] * elem M [b, k, j])
             = (if i = j then 1 else 0) - 1 / real (nat d + 1)) \<and>
        (\<forall>v. zero_sum (nat d + 1) v \<longrightarrow>
           euclidean_norm (nat d + 1) (apply_matrix (nat d + 1) M b v)
             = euclidean_norm (nat d + 1) v))"
proof -
  define n where "n = nat d + 1"
  from rng have d: "0 \<le> d" and num: "0 \<le> num"
    by (simp_all add: arguments_in_range_def)
  from random_rotation_eq[OF d num lib, folded n_def] obtain P S M where
    P: "zero_sum_projector d = Inr P" and qrP: "qr_decomposes qr P"
    and shS: "shape S = [nat num, nat d, nat d]"
    and each: "\<forall>b<nat num. qr_decomposes qr (batch_entry S b)"
    and run: "random_rotation_in_zero_sum_subspace_cuda qr randn d num dev dt g
        = (Inr M, snd (randn [num, d, d] dev dt g))"
    and ent: "\<forall>b<nat num. \<forall>i<n. \<forall>j<n. elem M [b, i, j] =
         (\<Sum>k<nat d. elem (q_factor qr P) [i, k] *
            (\<Sum>l<nat d. elem (q_factor qr (batch_entry S b)) [k, l] * elem (q_factor qr P) [j, l]))"
    by blast
  note fcols = basis_facts(2)[OF d P qrP, folded n_def]
  note frows = basis_facts(3)[OF d P qrP, folded n_def]
  from zero_sum_projector_eq[OF d] P
  have entP: "elem P [i, j] = (if i = j then 1 else 0) - 1 / real n" for i j
    by (auto simp: n_def)
  have "(\<forall>i<n. \<forall>j<n. (\<Sum>k<n. elem M [b, k, i] * elem M [b, k, j])
             = (if i = j then 1 else 0) - 1 / real n) \<and>
        (\<forall>v. zero_sum n v \<longrightarrow> euclidean_norm n (apply_matrix n M b v) = euclidean_norm n v)"
    if b: "b < nat num" for b
  proof -
    let ?f = "\<lambda>i k. elem (q_factor qr P) [i, k]"
    let ?r = "\<lambda>k l. elem (q_factor qr (batch_entry S b)) [k, l]"
    have entb: "elem M [b, i, j] = (\<Sum>k<nat d. ?f i k * (\<Sum>l<nat d. ?r k l * ?f j l))"
      if "i < n" "j < n" for i j
      using ent b that by simp
    have "shape (batch_entry S b) = [nat d, nat d]"
      by (simp add: batch_entry_def shS)
    from qr_decomposesD[OF _ this] each b
    have "orthonormal_columns (nat d) (nat d) (q_factor qr (batch_entry S b))"
      by blast
    then have rcols: "\<forall>a<nat d. \<forall>c<nat d. (\<Sum>k<nat d. ?r k a * ?r k c) = (if a = c then 1 else 0)"
      by (simp add: orthonormal_columns_def)
    have gramM: "(\<Sum>k<n. elem M [b, k, i] * elem M [b, k, j]) = (if i = j then 1 else 0) - 1 / real n"
      if i: "i < n" and j: "j < n" for i j
    proof -
      have "(\<Sum>k<n. elem M [b, k, i] * elem M [b, k, j])
          = (\<Sum>k<n. (\<Sum>a<nat d. ?f k a * (\<Sum>l<nat d. ?r a l * ?f i l)) *
                     (\<Sum>c<nat d. ?f k c * (\<Sum>l<nat d. ?r c l * ?f j l)))"
        by (intro sum.cong refl) (simp add: entb i j)
      also have "\<dots> = (\<Sum>l<nat d. ?f i l * ?f j l)"
        by (rule sandwich_gram[OF fcols rcols])
      also have "\<dots> = elem P [i, j]"
        using frows i j by simp
      finally show ?thesis by (simp add: entP)
    qed
    have norm: "euclidean_norm n (apply_matrix n M b v) = euclidean_norm n v"
      if v: "zero_sum n v" for v
    proof -
      have "(\<Sum>i<n. (\<Sum>j<n. elem M [b, i, j] * v j) * (\<Sum>j<n. elem M [b, i, j] * v j))
          = (\<Sum>j<n. \<Sum>j'<n. (v j * v j') * (\<Sum>i<n. elem M [b, i, j] * elem M [b, i, j']))"
        by (rule quadratic_form)
      also have "\<dots> = (\<Sum>j<n. \<Sum>j'<n. (v j * v j') * ((if j = j' then 1 else 0) - 1 / real n))"
        by (intro sum.cong refl) (simp add: gramM)
      also have "\<dots> = (\<Sum>j<n. v j * v j)"
        using v by (intro projector_quadratic_form) (simp add: zero_sum_def)
      finally show ?thesis
        by (simp add: euclidean_norm_def apply_matrix_def)
    qed
    show ?thesis using gramM norm by blast
  qed
  with run show ?thesis unfolding n_def by simp
qed

theorem rotation_is_orthogonal_on_zero_sum_subspace_witness:
  "arguments_in_range 2 2 \<and> library_contract demo_qr demo_randn 2 2 CPU Float32 0 \<and>
   (\<Sum>k<3. elem
      (returned_tensor (random_rotation_in_zero_sum_subspace_cuda demo_qr demo_randn 2 2 CPU Float32 0))
      [1, k, 0] *
    elem
      (returned_tensor (random_rotation_in_zero_sum_subspace_cuda demo_qr demo_randn 2 2 CPU Float32 0))
      [1, k, 1]) = - 1 / 3 \<and>
   (\<Sum>k<3. elem
      (returned_tensor (random_rotation_in_zero_sum_subspace_cuda demo_qr demo_randn 2 2 CPU Float32 0))
      [1, k, 2] *
    elem
      (returned_tensor (random_rotation_in_zero_sum_subspace_cuda demo_qr demo_randn 2 2 CPU Float32 0))
      [1, k, 2]) = 2 / 3 \<and>
   zero_sum 3 demo_vector \<and>
   euclidean_norm 3 (apply_matrix 3
      (returned_tensor (random_rotation_in_zero_sum_subspace_cuda demo_qr demo_randn 2 2 CPU Float32 0))
      1 demo_vector) = sqrt 2"
proof -
  have c: "library_contract demo_qr demo_randn 2 2 CPU Float32 0"
    by (rule demo_library_contract) simp
  have v: "zero_sum 3 demo_vector"
    by (simp add: zero_sum_def demo_vector_def sum_less_three)
  have nv: "euclidean_norm 3 demo_vector = sqrt 2"
    by (simp add: euclidean_norm_def demo_vector_def sum_less_three)
  have a: "arguments_in_range 2 2"
    by (simp add: arguments_in_range_def int_max_def)
  from rotation_is_orthogonal_on_zero_sum_subspace[of 2 2 demo_qr demo_randn CPU Float32 0, OF a c]
  obtain M where M: "fst (random_rotation_in_zero_sum_subspace_cuda demo_qr demo_randn 2 2 CPU Float32 0) = Inr M"
    and props: "\<forall>b<2.
        (\<forall>i<3. \<forall>j<3. (\<Sum>k<3. elem M [b, k, i] * elem M [b, k, j]) = (if i = j then 1 else 0) - 1 / 3) \<and>
        (\<forall>v. zero_sum 3 v \<longrightarrow> euclidean_norm 3 (apply_matrix 3 M b v) = euclidean_norm 3 v)"
    by auto
  have r: "returned_tensor (random_rotation_in_zero_sum_subspace_cuda demo_qr demo_randn 2 2 CPU Float32 0) = M"
    by (simp add: returned_tensor_def M)
  have g01: "(\<Sum>k<3. elem M [1, k, 0] * elem M [1, k, 1]) = - 1 / 3"
    and g22: "(\<Sum>k<3. elem M [1, k, 2] * elem M [1, k, 2]) = 2 / 3"
    and nm: "euclidean_norm 3 (apply_matrix 3 M 1 demo_vector) = euclidean_norm 3 demo_vector"
    using props v by (simp_all add: all_less_two all_less_three)
  show ?thesis
    unfolding r using a c v g01 g22 nm nv by simp
qed

text \<open>
  Claim C10. The function is not a function of (dim, num, device, dtype) alone: it reads
  the generator state and leaves the state that \<^verbatim>\<open>randn\<close> returns, and the result
  determines the orthogonal factors of the samples (R = Q^T M Q). Two successive calls
  with the same arguments therefore return different tensors whenever the samples drawn
  in the two states have orthogonal factors that differ in some entry.
\<close>

theorem rotation_depends_on_generator_state:
  assumes rng: "arguments_in_range d num"
    and lib: "library_contract qr randn d num dev dt g"
    and g': "g' = snd (randn [num, d, d] dev dt g)"
    and lib': "library_contract qr randn d num dev dt g'"
    and S: "fst (randn [num, d, d] dev dt g) = Inr S"
    and S': "fst (randn [num, d, d] dev dt g') = Inr S'"
    and b: "b < nat num" and k: "k < nat d" and l: "l < nat d"
    and differ: "elem (q_factor qr (batch_entry S b)) [k, l]
                  \<noteq> elem (q_factor qr (batch_entry S' b)) [k, l]"
  shows "\<exists>M M'.
      random_rotation_in_zero_sum_subspace_cuda qr randn d num dev dt g = (Inr M, g') \<and>
      fst (random_rotation_in_zero_sum_subspace_cuda qr randn d num dev dt g') = Inr M' \<and>
      (\<exists>i<nat d + 1. \<exists>j<nat d + 1. elem M [b, i, j] \<noteq> elem M' [b, i, j])"
proof -
  define n where "n = nat d + 1"
  from rng have d: "0 \<le> d" and num: "0 \<le> num"
    by (simp_all add: arguments_in_range_def)
  from random_rotation_eq[OF d num lib, folded n_def] S obtain P M where
    P: "zero_sum_projector d = Inr P" and qrP: "qr_decomposes qr P"
    and run: "random_rotation_in_zero_sum_subspace_cuda qr randn d num dev dt g = (Inr M, g')"
    and ent: "\<forall>b<nat num. \<forall>i<n. \<forall>j<n. elem M [b, i, j] =
         (\<Sum>k<nat d. elem (q_factor qr P) [i, k] *
            (\<Sum>l<nat d. elem (q_factor qr (batch_entry S b)) [k, l] * elem (q_factor qr P) [j, l]))"
    unfolding g' by auto
  from random_rotation_eq[OF d num lib', folded n_def] S' P obtain M' where
    run': "fst (random_rotation_in_zero_sum_subspace_cuda qr randn d num dev dt g') = Inr M'"
    and ent': "\<forall>b<nat num. \<forall>i<n. \<forall>j<n. elem M' [b, i, j] =
         (\<Sum>k<nat d. elem (q_factor qr P) [i, k] *
            (\<Sum>l<nat d. elem (q_factor qr (batch_entry S' b)) [k, l] * elem (q_factor qr P) [j, l]))"
    by auto
  note fcols = basis_facts(2)[OF d P qrP, folded n_def]
  let ?f = "\<lambda>i k. elem (q_factor qr P) [i, k]"
  have rec: "(\<Sum>i<n. \<Sum>j<n. ?f i k * elem M [b, i, j] * ?f j l)
      = elem (q_factor qr (batch_entry S b)) [k, l]"
  proof -
    have "(\<Sum>i<n. \<Sum>j<n. ?f i k * elem M [b, i, j] * ?f j l)
        = (\<Sum>i<n. \<Sum>j<n. ?f i k *
             (\<Sum>a<nat d. ?f i a * (\<Sum>c<nat d. elem (q_factor qr (batch_entry S b)) [a, c] * ?f j c)) *
             ?f j l)"
      using ent b by (intro sum.cong refl) simp
    also have "\<dots> = elem (q_factor qr (batch_entry S b)) [k, l]"
      by (rule sandwich_recover[OF fcols k l])
    finally show ?thesis .
  qed
  have rec': "(\<Sum>i<n. \<Sum>j<n. ?f i k * elem M' [b, i, j] * ?f j l)
      = elem (q_factor qr (batch_entry S' b)) [k, l]"
  proof -
    have "(\<Sum>i<n. \<Sum>j<n. ?f i k * elem M' [b, i, j] * ?f j l)
        = (\<Sum>i<n. \<Sum>j<n. ?f i k *
             (\<Sum>a<nat d. ?f i a * (\<Sum>c<nat d. elem (q_factor qr (batch_entry S' b)) [a, c] * ?f j c)) *
             ?f j l)"
      using ent' b by (intro sum.cong refl) simp
    also have "\<dots> = elem (q_factor qr (batch_entry S' b)) [k, l]"
      by (rule sandwich_recover[OF fcols k l])
    finally show ?thesis .
  qed
  have "\<exists>i<n. \<exists>j<n. elem M [b, i, j] \<noteq> elem M' [b, i, j]"
  proof (rule ccontr)
    assume "\<not> ?thesis"
    then have same: "elem M [b, i, j] = elem M' [b, i, j]" if "i < n" "j < n" for i j
      using that by blast
    have "(\<Sum>i<n. \<Sum>j<n. ?f i k * elem M [b, i, j] * ?f j l)
        = (\<Sum>i<n. \<Sum>j<n. ?f i k * elem M' [b, i, j] * ?f j l)"
      by (intro sum.cong refl) (simp add: same)
    with rec rec' differ show False by simp
  qed
  with run run' show ?thesis unfolding n_def by blast
qed

theorem rotation_depends_on_generator_state_witness:
  "arguments_in_range 2 2 \<and>
   library_contract demo_qr demo_randn 2 2 CPU Float32 0 \<and>
   library_contract demo_qr demo_randn 2 2 CPU Float32 1 \<and>
   snd (random_rotation_in_zero_sum_subspace_cuda demo_qr demo_randn 2 2 CPU Float32 0) = 1 \<and>
   fst (random_rotation_in_zero_sum_subspace_cuda demo_qr demo_randn 2 2 CPU Float32 0)
     \<noteq> fst (random_rotation_in_zero_sum_subspace_cuda demo_qr demo_randn 2 2 CPU Float32 1)"
proof -
  have c0: "library_contract demo_qr demo_randn 2 2 CPU Float32 0"
    by (rule demo_library_contract) simp
  have c1: "library_contract demo_qr demo_randn 2 2 CPU Float32 1"
    by (rule demo_library_contract) simp
  have a: "arguments_in_range 2 2"
    by (simp add: arguments_in_range_def int_max_def)
  define S where "S = \<lparr>shape = [2, 2, 2],
    elem = (\<lambda>idx. if even (idx ! 0 + idx ! 1 + idx ! 2 + (0::nat)) then 1 else 0 :: real)\<rparr>"
  define S' where "S' = \<lparr>shape = [2, 2, 2],
    elem = (\<lambda>idx. if even (idx ! 0 + idx ! 1 + idx ! 2 + (1::nat)) then 1 else 0 :: real)\<rparr>"
  have g': "(1::nat) = snd (demo_randn [2, 2, 2] CPU Float32 0)"
    by (simp add: demo_randn_def)
  have s0: "fst (demo_randn [2, 2, 2] CPU Float32 0) = Inr S"
    by (simp add: demo_randn_def S_def)
  have s1: "fst (demo_randn [2, 2, 2] CPU Float32 1) = Inr S'"
    by (simp add: demo_randn_def S'_def)
  have differ: "elem (q_factor demo_qr (batch_entry S 0)) [0, 0]
      \<noteq> elem (q_factor demo_qr (batch_entry S' 0)) [0, 0]"
    by (simp add: q_factor_def demo_qr_def batch_entry_def S_def S'_def matrix_of_rows_def)
  from rotation_depends_on_generator_state[of 2 2 demo_qr demo_randn CPU Float32 0 1 S S' 0 0 0,
      OF a c0 g' c1 s0 s1 _ _ _ differ]
  obtain M M' where
    "random_rotation_in_zero_sum_subspace_cuda demo_qr demo_randn 2 2 CPU Float32 0 = (Inr M, 1)"
    "fst (random_rotation_in_zero_sum_subspace_cuda demo_qr demo_randn 2 2 CPU Float32 1) = Inr M'"
    "\<exists>i<3. \<exists>j<3. elem M [0, i, j] \<noteq> elem M' [0, i, j]"
    by auto
  then show ?thesis using a c0 c1 by auto
qed

section \<open>The claims about the Python module\<close>

subsection \<open>Attribute access and argument binding\<close>

lemma fields_all_read_only: "map_of PermutoEncMeta_fields name = Some a \<Longrightarrow> a = ReadOnly"
  by (auto simp: PermutoEncMeta_fields_def split: if_splits)

lemma setattr_refused: "setattr PermutoEncMeta_fields obj name v = Inl AttributeError"
proof (cases "map_of PermutoEncMeta_fields name")
  case None
  then show ?thesis by (simp add: setattr_def)
next
  case (Some a)
  with fields_all_read_only[OF Some] show ?thesis by (simp add: setattr_def)
qed

lemma meta_step_unchanged: "snd (meta_step K oper obj) = obj"
  by (cases oper) (simp_all add: setattr_refused delattr_def)

lemma bind_from_missing_required:
  "Required name \<in> set (drop (length positional) args) \<Longrightarrow> kw name = None \<Longrightarrow>
   bind_from args positional kw = Inl TypeError"
proof (induction args positional kw rule: bind_from.induct)
  case (1 kw)
  then show ?case by simp
next
  case (2 v vs kw)
  then show ?case by simp
next
  case (3 a as v vs kw)
  then show ?case by (simp split: option.splits)
next
  case (4 a as kw)
  show ?case
  proof (cases "a = Required name")
    case True
    with 4 show ?thesis by simp
  next
    case False
    with "4.prems" have mem: "Required name \<in> set (drop (length ([]::py_value list)) as)"
      by simp
    show ?thesis
    proof (cases "kw (arg_name a)")
      case (Some w)
      with "4.IH"(2)[OF Some mem "4.prems"(2)] show ?thesis by simp
    next
      case None
      show ?thesis
      proof (cases a)
        case (Required other)
        with None show ?thesis by simp
      next
        case (Optional other dflt)
        with None "4.IH"(1)[OF None Optional mem "4.prems"(2)] show ?thesis by simp
      qed
    qed
  qed
qed

lemma max_pos_dims_required:
  assumes "length positional < 10" and "''max_pos_dims'' \<notin> fst ` set keywords"
  shows "bind_arguments permuto_enc_bwd_args positional keywords = Inl TypeError"
proof -
  have len: "length permuto_enc_bwd_args = 12"
    and at: "permuto_enc_bwd_args ! 9 = Required ''max_pos_dims''"
    by (simp_all add: permuto_enc_bwd_args_def OPTIONAL_ARGS_def)
  have "drop (length positional) permuto_enc_bwd_args ! (9 - length positional)
      = permuto_enc_bwd_args ! 9"
    using assms(1) len by simp
  moreover have "9 - length positional < length (drop (length positional) permuto_enc_bwd_args)"
    using assms(1) len by simp
  ultimately have "Required ''max_pos_dims'' \<in> set (drop (length positional) permuto_enc_bwd_args)"
    using at by (metis nth_mem)
  moreover have "map_of keywords ''max_pos_dims'' = None"
    using assms(2) by (simp add: map_of_eq_None_iff)
  ultimately have "bind_from permuto_enc_bwd_args positional (map_of keywords) = Inl TypeError"
    by (rule bind_from_missing_required)
  then show ?thesis by (simp add: bind_arguments_def)
qed

subsection \<open>The claims\<close>

text \<open>
  Claim C4, against the constructor as the spec describes it. The constructor fails with
  a configuration error exactly when the number of levels (the length of
  \<^verbatim>\<open>res_list\<close>) is outside [2, 20], some entry of \<^verbatim>\<open>n_feats_list\<close> is below 2, or the
  two lists differ in length. On every other input it succeeds, and the meta it produces
  has the level count, the feature widths and the input dimension that were given:
  nothing is clamped.
\<close>

theorem build_meta_configuration_error:
  "(build_meta layout n_input_dim hashmap_size res_list n_feats_list = Inl ConfigurationError)
     = (length res_list < 2 \<or> 20 < length res_list \<or> (\<exists>f\<in>set n_feats_list. f < 2) \<or>
        length n_feats_list \<noteq> length res_list) \<and>
   (\<exists>m. build_meta layout n_input_dim hashmap_size res_list n_feats_list = Inr m \<and>
        n_levels m = int (length res_list) \<and> level_n_feats m = n_feats_list \<and>
        n_dims_to_encode m = n_input_dim)
     = (2 \<le> length res_list \<and> length res_list \<le> 20 \<and> (\<forall>f\<in>set n_feats_list. 2 \<le> f) \<and>
        length n_feats_list = length res_list)"
  by (auto simp add: build_meta_def list_ex_iff not_le not_less)

theorem build_meta_configuration_error_witness:
  "build_meta demo_layout 3 16384 [16, 32, 64, 128] [2, 1, 2, 2] = Inl ConfigurationError \<and>
   build_meta demo_layout 3 16384 [16] [2] = Inl ConfigurationError \<and>
   build_meta demo_layout 3 16384 [16, 32, 64, 128] [2, 2, 2] = Inl ConfigurationError \<and>
   (\<exists>m. build_meta demo_layout 3 16384 [16, 32, 64, 128] [2, 2, 2, 2] = Inr m \<and>
        n_levels m = 4 \<and> level_n_feats m = [2, 2, 2, 2] \<and> n_dims_to_encode m = 3)"
  using build_meta_configuration_error[of demo_layout 3 16384 "[16, 32, 64, 128]" "[2, 1, 2, 2]"]
    build_meta_configuration_error[of demo_layout 3 16384 "[16]" "[2]"]
    build_meta_configuration_error[of demo_layout 3 16384 "[16, 32, 64, 128]" "[2, 2, 2]"]
    build_meta_configuration_error[of demo_layout 3 16384 "[16, 32, 64, 128]" "[2, 2, 2, 2]"]
  by simp

text \<open>
  Claim C5. No operation that the module exposes changes a field of a constructed
  \<^verbatim>\<open>PermutoEncMeta\<close>: whatever sequence of attribute reads, assignments and deletions
  and of calls of \<^verbatim>\<open>permuto_enc_fwd\<close>, \<^verbatim>\<open>permuto_enc_bwd\<close> and
  \<^verbatim>\<open>permuto_enc_bwd_bwd_input\<close> runs on the object, it is left as it was, and an
  assignment to any attribute is refused with an \<^verbatim>\<open>AttributeError\<close>.
\<close>

theorem meta_fields_read_only:
  "meta_run K ops obj = obj \<and> setattr PermutoEncMeta_fields obj name v = Inl AttributeError"
proof
  show "meta_run K ops obj = obj"
    by (induction ops) (simp_all add: meta_step_unchanged)
  show "setattr PermutoEncMeta_fields obj name v = Inl AttributeError"
    by (rule setattr_refused)
qed

theorem meta_fields_read_only_witness:
  "meta_run demo_kernels
     [SetAttr ''n_levels'' (PyInt 5), DelAttr ''n_encoded_dims'', GetAttr ''n_levels'',
      Call_permuto_enc_fwd [PyObject ''meta'', PyNone, PyNone] []]
     demo_meta = demo_meta \<and>
   setattr PermutoEncMeta_fields demo_meta ''n_levels'' (PyInt 5) = Inl AttributeError"
  by (rule meta_fields_read_only)

text \<open>
  Claim C6. \<^verbatim>\<open>permuto_enc_fwd\<close> can be called with \<^verbatim>\<open>meta\<close>, \<^verbatim>\<open>positions\<close> and
  \<^verbatim>\<open>lattice_values\<close> alone: the call is accepted, and the C++ function receives
  \<^verbatim>\<open>None\<close> for each of \<^verbatim>\<open>level_random_shifts\<close>, \<^verbatim>\<open>batch_inds\<close>,
  \<^verbatim>\<open>batch_offsets\<close>, \<^verbatim>\<open>batch_data_size\<close> and \<^verbatim>\<open>max_level\<close>. With
  \<^verbatim>\<open>max_level\<close> absent no level is cut off: the forward pass, as the spec describes
  it, returns the features of all levels.
\<close>

theorem permuto_enc_fwd_optional_arguments:
  "call_bound permuto_enc_fwd_args impl [meta, positions, lattice_values] []
     = Inr (impl [meta, positions, lattice_values, PyNone, PyNone, PyNone, PyNone, PyNone]) \<and>
   encode_forward level_features widths (optional_level PyNone) x
     = concat (map (\<lambda>l. level_features l x) [0..<length widths])"
  by (simp add: call_bound_def bind_arguments_def permuto_enc_fwd_args_def OPTIONAL_ARGS_def
      encode_forward_def optional_level_def level_active_def)

theorem permuto_enc_fwd_optional_arguments_witness:
  "call_bound permuto_enc_fwd_args (\<lambda>bound. bound)
     [PyObject ''meta'', PyList [PyFloat 0, PyFloat 0, PyFloat 0], PyList []] []
     = Inr [PyObject ''meta'', PyList [PyFloat 0, PyFloat 0, PyFloat 0], PyList [],
            PyNone, PyNone, PyNone, PyNone, PyNone] \<and>
   encode_forward (\<lambda>l x. [real l, x]) [2, 2, 2] (optional_level PyNone) (7::real)
     = [0, 7, 1, 7, 2, 7]"
proof -
  have "concat (map (\<lambda>l. [real l, 7::real]) [0..<length [2::nat, 2, 2]]) = [0, 7, 1, 7, 2, 7]"
    by (simp add: upt_rec)
  with permuto_enc_fwd_optional_arguments[of "\<lambda>bound. bound" "PyObject ''meta''"
      "PyList [PyFloat 0, PyFloat 0, PyFloat 0]" "PyList []" "\<lambda>l x. [real l, x]" "[2, 2, 2]" 7]
  show ?thesis by simp
qed

text \<open>
  Claim C7. \<^verbatim>\<open>permuto_enc_bwd\<close> requires \<^verbatim>\<open>max_pos_dims\<close>: a call that gives it
  neither by position (it is the tenth argument) nor by keyword is refused. The flags
  \<^verbatim>\<open>need_input_grad\<close> and \<^verbatim>\<open>need_param_grad\<close> are optional and default to
  \<^verbatim>\<open>None\<close>. In the backward pass as the spec describes it, a flag only decides whether
  its output is computed: each output is either skipped or equal to the one that a call
  computing both returns, and a cleared flag skips its output.
\<close>

theorem permuto_enc_bwd_arguments:
  "(length positional < 10 \<and> ''max_pos_dims'' \<notin> fst ` set keywords \<longrightarrow>
      call_bound permuto_enc_bwd_args impl positional keywords = Inl TypeError) \<and>
   call_bound permuto_enc_bwd_args impl [meta, dL_dy, positions, lattice_values]
       [(''max_pos_dims'', k)]
     = Inr (impl [meta, dL_dy, positions, lattice_values,
                  PyNone, PyNone, PyNone, PyNone, PyNone, k, PyNone, PyNone]) \<and>
   fst (encode_backward omitted input_grad param_grad inputs need_input_grad need_param_grad)
     = (if flag_set omitted need_input_grad
        then fst (encode_backward omitted input_grad param_grad inputs (PyBool True) (PyBool True))
        else None) \<and>
   snd (encode_backward omitted input_grad param_grad inputs need_input_grad need_param_grad)
     = (if flag_set omitted need_param_grad
        then snd (encode_backward omitted input_grad param_grad inputs (PyBool True) (PyBool True))
        else None) \<and>
   fst (encode_backward omitted input_grad param_grad inputs (PyBool False) need_param_grad) = None \<and>
   snd (encode_backward omitted input_grad param_grad inputs need_input_grad (PyBool False)) = None"
proof (intro conjI impI)
  assume "length positional < 10 \<and> ''max_pos_dims'' \<notin> fst ` set keywords"
  then show "call_bound permuto_enc_bwd_args impl positional keywords = Inl TypeError"
    by (simp add: call_bound_def max_pos_dims_required)
qed (simp_all add: call_bound_def bind_arguments_def permuto_enc_bwd_args_def OPTIONAL_ARGS_def
      encode_backward_def flag_set_def)

theorem permuto_enc_bwd_arguments_witness:
  "length [PyObject ''meta'', PyNone, PyNone, PyNone] < 10 \<and>
   ''max_pos_dims'' \<notin> fst ` set [(''need_input_grad'', PyBool True)] \<and>
   call_bound permuto_enc_bwd_args (\<lambda>bound. bound) [PyObject ''meta'', PyNone, PyNone, PyNone]
       [(''need_input_grad'', PyBool True)] = Inl TypeError \<and>
   call_bound permuto_enc_bwd_args (\<lambda>bound. bound) [PyObject ''meta'', PyNone, PyNone, PyNone]
       [(''max_pos_dims'', PyInt 3)]
     = Inr [PyObject ''meta'', PyNone, PyNone, PyNone,
            PyNone, PyNone, PyNone, PyNone, PyNone, PyInt 3, PyNone, PyNone] \<and>
   encode_backward False (\<lambda>x. x + 1) (\<lambda>x. x * 2) (5::int) (PyBool True) PyNone = (Some 6, None) \<and>
   encode_backward False (\<lambda>x. x + 1) (\<lambda>x. x * 2) (5::int) (PyBool True) (PyBool True)
     = (Some 6, Some 10)"
proof -
  have a: "length [PyObject ''meta'', PyNone, PyNone, PyNone] < 10 \<and>
      ''max_pos_dims'' \<notin> fst ` set [(''need_input_grad'', PyBool True)]"
    by simp
  have both: "encode_backward False (\<lambda>x. x + 1) (\<lambda>x. x * 2) (5::int) (PyBool True) (PyBool True)
     = (Some 6, Some 10)"
    by (simp add: encode_backward_def flag_set_def)
  from permuto_enc_bwd_arguments[of "[PyObject ''meta'', PyNone, PyNone, PyNone]"
      "[(''need_input_grad'', PyBool True)]" "\<lambda>bound. bound" "PyObject ''meta''" PyNone PyNone PyNone
      "PyInt 3" False "\<lambda>x::int. x + 1" "\<lambda>x::int. x * 2" 5 "PyBool True" PyNone]
  show ?thesis
    using a both by (simp add: prod_eq_iff flag_set_def)
qed

end
